theory Spec2Isabelle
  imports Main "HOL-Library.AList"
begin

section \<open>Strings of the host language\<close>

text \<open>
  A source string is modelled as a \<^typ>\<open>string\<close>; one \<^typ>\<open>char\<close> stands for one
  UTF-16 code unit below 256. The helpers below are the string methods the
  repository calls, with the behaviour the language defines for them.
\<close>

definition startsWith :: "string \<Rightarrow> string \<Rightarrow> bool" where
  "startsWith s p = (take (length p) s = p)"

definition includesChar :: "string \<Rightarrow> char \<Rightarrow> bool" where
  "includesChar s c = (c \<in> set s)"

text \<open>\<open>s.split(c)\<close> for a one-character separator: every occurrence separates.\<close>

fun split :: "char \<Rightarrow> string \<Rightarrow> string list" where
  "split c [] = [[]]"
| "split c (x # xs) =
     (if x = c then [] # split c xs
      else (case split c xs of
              [] \<Rightarrow> [[x]]
            | seg # segs \<Rightarrow> (x # seg) # segs))"

text \<open>
  The characters \<open>trim()\<close> removes, among the code units below 256: TAB, LF, VT,
  FF, CR, SP and NBSP.
\<close>

definition isTrimSpace :: "char \<Rightarrow> bool" where
  "isTrimSpace c = (c \<in> {CHR 0x09, CHR 0x0A, CHR 0x0B, CHR 0x0C, CHR 0x0D, CHR 0x20, CHR 0xA0})"

definition trim :: "string \<Rightarrow> string" where
  "trim s = rev (dropWhile isTrimSpace (rev (dropWhile isTrimSpace s)))"

datatype js_error = TypeError string | Error string

fun message :: "js_error \<Rightarrow> string" where
  "message (TypeError m) = m"
| "message (Error m) = m"

text \<open>
  An object is the list of its own enumerable properties in insertion order;
  \<open>obj[key] = v\<close> keeps the position of an existing key.
\<close>

fun setProp :: "(string \<times> 'v) list \<Rightarrow> string \<Rightarrow> 'v \<Rightarrow> (string \<times> 'v) list" where
  "setProp [] k v = [(k, v)]"
| "setProp (p # ps) k v = (if fst p = k then (k, v) # ps else p # setProp ps k v)"

section \<open>Compiler: scoping a style selector\<close>

text \<open>
  \<open>scopeSelector(selector, scopeId)\<close> of the generated component class. The
  destructuring \<open>[base, pseudo] = selector.split(':')\<close> binds the first two
  segments; a missing second segment would be \<open>undefined\<close>, and \<open>trim\<close> on it
  raises.
\<close>

definition scopeSelector :: "string \<Rightarrow> string \<Rightarrow> js_error + string" where
  "scopeSelector selector scopeId =
     (if startsWith selector '':host'' then Inr selector
      else if includesChar selector CHR '':'' then
        (case split CHR '':'' selector of
           base # pseudo # _ \<Rightarrow>
             Inr (''.'' @ scopeId @ '' '' @ trim base @ '':'' @ trim pseudo)
         | _ \<Rightarrow> Inl (TypeError ''Cannot read properties of undefined''))
      else Inr (''.'' @ scopeId @ '' '' @ selector))"

section \<open>Lexer\<close>

datatype token_type =
    COMPONENT | HTML_TAG | STYLE_BLOCK | STATE_BLOCK | TEMPLATE_BLOCK | PROPS_BLOCK
  | LEFT_BRACE | RIGHT_BRACE | LEFT_PAREN | RIGHT_PAREN | STRING | INTERPOLATION
  | IDENTIFIER | NUMBER | INCREMENT | DECREMENT | EQUAL | NOT_EQUAL
  | PLUS | MINUS | MULTIPLY | DIVIDE | ASSIGN | COLON | SEMICOLON | COMMA | DOT
  | NOT | AND | OR | TEXT | EOF

text \<open>
  The value of a token is a string, except for \<open>NUMBER\<close>, whose value is the
  number \<open>parseFloat\<close> reads from the literal; the model keeps the literal.
\<close>

datatype token_value = Str string | Num string

record token =
  ttype :: token_type
  tvalue :: token_value
  line :: nat

record lexer =
  content :: string
  position :: nat
  tokens :: "token list"

definition isAtEnd :: "lexer \<Rightarrow> bool" where
  "isAtEnd L = (position L \<ge> length (content L))"

definition getCurrentChar :: "lexer \<Rightarrow> char" where
  "getCurrentChar L = (if isAtEnd L then CHR 0x00 else content L ! position L)"

definition peek :: "lexer \<Rightarrow> char" where
  "peek L = (let pos = position L + 1
             in if pos \<ge> length (content L) then CHR 0x00 else content L ! pos)"

definition advance :: "lexer \<Rightarrow> lexer" where
  "advance L = (if \<not> isAtEnd L then L\<lparr>position := position L + 1\<rparr> else L)"

definition isWhitespace :: "char \<Rightarrow> bool" where
  "isWhitespace c = (c = CHR '' '' \<or> c = CHR 0x09 \<or> c = CHR 0x0A \<or> c = CHR 0x0D)"

definition isAlpha :: "char \<Rightarrow> bool" where
  "isAlpha c = (c \<in> set ''abcdefghijklmnopqrstuvwxyzABCDEFGHIJKLMNOPQRSTUVWXYZ_'')"

definition isDigit :: "char \<Rightarrow> bool" where
  "isDigit c = (c \<in> set ''0123456789'')"

definition isAlphaNumeric :: "char \<Rightarrow> bool" where
  "isAlphaNumeric c = (isAlpha c \<or> isDigit c)"

definition getCurrentLine :: "lexer \<Rightarrow> nat" where
  "getCurrentLine L = 1 + length (filter (\<lambda>c. c = CHR 0x0A) (take (position L) (content L)))"

definition substring :: "string \<Rightarrow> nat \<Rightarrow> nat \<Rightarrow> string" where
  "substring s start endIndex = take (endIndex - start) (drop start s)"

definition pushToken :: "token_type \<Rightarrow> token_value \<Rightarrow> lexer \<Rightarrow> lexer" where
  "pushToken ty v L = L\<lparr>tokens := tokens L @ [\<lparr>ttype = ty, tvalue = v, line = getCurrentLine L\<rparr>]\<rparr>"

text \<open>
  \<open>addToken(type)\<close> without a value takes the current character as the value
  and advances; \<open>addToken(type, value)\<close> leaves the position where it is.
\<close>

definition addToken :: "token_type \<Rightarrow> token_value option \<Rightarrow> lexer \<Rightarrow> lexer" where
  "addToken ty v L =
     (case v of
        None \<Rightarrow> pushToken ty (Str [getCurrentChar L]) (advance L)
      | Some w \<Rightarrow> pushToken ty w L)"

definition remaining :: "lexer \<Rightarrow> nat" where
  "remaining L = length (content L) - position L"

lemma remaining_advance [simp]: "\<not> isAtEnd L \<Longrightarrow> remaining (advance L) < remaining L"
  by (auto simp: remaining_def advance_def isAtEnd_def)

lemma getCurrentChar_end [simp]: "isAtEnd L \<Longrightarrow> getCurrentChar L = CHR 0x00"
  by (simp add: getCurrentChar_def)

function skipLineComment :: "lexer \<Rightarrow> lexer" where
  "skipLineComment L =
     (if getCurrentChar L \<noteq> CHR 0x0A \<and> \<not> isAtEnd L then skipLineComment (advance L) else L)"
  by pat_completeness auto
termination
  by (relation "measure remaining") auto

declare skipLineComment.simps [simp del]

function blockCommentLoop :: "lexer \<Rightarrow> lexer" where
  "blockCommentLoop L =
     (if \<not> isAtEnd L
      then (if getCurrentChar L = CHR ''*'' \<and> peek L = CHR ''/''
            then advance (advance L)
            else blockCommentLoop (advance L))
      else L)"
  by pat_completeness auto
termination
  by (relation "measure remaining") auto

declare blockCommentLoop.simps [simp del]

definition skipBlockComment :: "lexer \<Rightarrow> lexer" where
  "skipBlockComment L = blockCommentLoop (advance (advance L))"

text \<open>The first loop of \<open>scanComponentDeclaration\<close> has no test for the end of the input.\<close>

partial_function (option) skipComponentWord :: "lexer \<Rightarrow> lexer option" where
  "skipComponentWord L =
     (if getCurrentChar L \<noteq> CHR '' '' \<and> getCurrentChar L \<noteq> CHR ''>''
      then skipComponentWord (advance L)
      else Some L)"

declare skipComponentWord.simps [code]

function skipSpaces :: "lexer \<Rightarrow> lexer" where
  "skipSpaces L = (if getCurrentChar L = CHR '' '' then skipSpaces (advance L) else L)"
  by pat_completeness auto
termination
proof (relation "measure remaining")
  show "wf (measure remaining)" by simp
next
  fix L :: lexer
  assume "getCurrentChar L = CHR '' ''"
  then have "\<not> isAtEnd L" by (auto simp: getCurrentChar_def split: if_splits)
  then show "(advance L, L) \<in> measure remaining" by simp
qed

declare skipSpaces.simps [simp del]

function scanComponentName :: "lexer \<Rightarrow> lexer" where
  "scanComponentName L =
     (if getCurrentChar L \<noteq> CHR ''>'' \<and> getCurrentChar L \<noteq> CHR 0x00 \<and> getCurrentChar L \<noteq> CHR '' ''
      then scanComponentName (advance L) else L)"
  by pat_completeness auto
termination
proof (relation "measure remaining")
  show "wf (measure remaining)" by simp
next
  fix L :: lexer
  assume "getCurrentChar L \<noteq> CHR ''>'' \<and> getCurrentChar L \<noteq> CHR 0x00 \<and> getCurrentChar L \<noteq> CHR '' ''"
  then have "\<not> isAtEnd L" by (auto simp: getCurrentChar_def split: if_splits)
  then show "(advance L, L) \<in> measure remaining" by simp
qed

declare scanComponentName.simps [simp del]

function skipToTagEnd :: "lexer \<Rightarrow> lexer" where
  "skipToTagEnd L =
     (if getCurrentChar L \<noteq> CHR ''>'' \<and> getCurrentChar L \<noteq> CHR 0x00
      then skipToTagEnd (advance L) else L)"
  by pat_completeness auto
termination
proof (relation "measure remaining")
  show "wf (measure remaining)" by simp
next
  fix L :: lexer
  assume "getCurrentChar L \<noteq> CHR ''>'' \<and> getCurrentChar L \<noteq> CHR 0x00"
  then have "\<not> isAtEnd L" by (auto simp: getCurrentChar_def split: if_splits)
  then show "(advance L, L) \<in> measure remaining" by simp
qed

declare skipToTagEnd.simps [simp del]

definition scanComponentDeclaration :: "lexer \<Rightarrow> lexer option" where
  "scanComponentDeclaration L =
     (case skipComponentWord (advance L) of
        None \<Rightarrow> None
      | Some L1 \<Rightarrow>
          (let L2 = skipSpaces L1;
               start = position L2;
               L3 = scanComponentName L2;
               componentName = substring (content L3) start (position L3);
               L4 = skipToTagEnd L3;
               L5 = (if getCurrentChar L4 = CHR ''>'' then advance L4 else L4)
           in Some (addToken COMPONENT (Some (Str componentName)) L5)))"

function closingTagLoop :: "lexer \<Rightarrow> lexer" where
  "closingTagLoop L =
     (if getCurrentChar L \<noteq> CHR ''>'' \<and> \<not> isAtEnd L then closingTagLoop (advance L) else L)"
  by pat_completeness auto
termination
  by (relation "measure remaining") auto

declare closingTagLoop.simps [simp del]

text \<open>
  The loop over an opening tag keeps \<open>inAttribute\<close> and \<open>quoteChar\<close>; its
  condition does not read them.
\<close>

function openingTagLoop :: "bool \<Rightarrow> char option \<Rightarrow> lexer \<Rightarrow> lexer" where
  "openingTagLoop inAttribute quoteChar L =
     (if getCurrentChar L \<noteq> CHR ''>'' \<and> \<not> isAtEnd L
      then (let c = getCurrentChar L
            in if \<not> inAttribute \<and> (c = CHR 0x22 \<or> c = CHR 0x27)
               then openingTagLoop True (Some c) (advance L)
               else if inAttribute \<and> Some c = quoteChar
               then openingTagLoop False None (advance L)
               else openingTagLoop inAttribute quoteChar (advance L))
      else L)"
  by pat_completeness auto
termination
  by (relation "measure (\<lambda>(a, q, L). remaining L)") auto

declare openingTagLoop.simps [simp del]

definition scanHtmlTag :: "lexer \<Rightarrow> lexer" where
  "scanHtmlTag L =
     (let start = position L;
          L1 = advance L
      in if getCurrentChar L1 = CHR ''/''
         then (let L2 = closingTagLoop (advance L1);
                   L3 = (if getCurrentChar L2 = CHR ''>'' then advance L2 else L2);
                   tagContent = substring (content L3) start (position L3)
               in addToken HTML_TAG (Some (Str tagContent)) L3)
         else (let L2 = openingTagLoop False None L1;
                   L3 = (if getCurrentChar L2 = CHR ''>'' then advance L2 else L2);
                   tagContent = substring (content L3) start (position L3)
               in addToken HTML_TAG (Some (Str tagContent)) L3))"

function stringLoop :: "char \<Rightarrow> lexer \<Rightarrow> lexer" where
  "stringLoop quote L =
     (if getCurrentChar L \<noteq> quote \<and> \<not> isAtEnd L
      then stringLoop quote
             (advance (if getCurrentChar L = CHR 0x5C then advance L else L))
      else L)"
  by pat_completeness auto
termination
proof (relation "measure (\<lambda>(q, L). remaining L)")
  show "wf (measure (\<lambda>(q, L). remaining L))" by simp
next
  fix quote :: char and L :: lexer
  assume "getCurrentChar L \<noteq> quote \<and> \<not> isAtEnd L"
  then have "remaining (advance (if getCurrentChar L = CHR 0x5C then advance L else L)) < remaining L"
    by (auto simp: remaining_def advance_def isAtEnd_def)
  then show "((quote, advance (if getCurrentChar L = CHR 0x5C then advance L else L)), quote, L)
      \<in> measure (\<lambda>(q, L). remaining L)"
    by simp
qed

declare stringLoop.simps [simp del]

definition scanString :: "lexer \<Rightarrow> lexer" where
  "scanString L =
     (let quote = getCurrentChar L;
          L1 = advance L;
          start = position L1;
          L2 = stringLoop quote L1;
          v = substring (content L2) start (position L2)
      in addToken STRING (Some (Str v)) (advance L2))"

function interpolationLoop :: "nat \<Rightarrow> lexer \<Rightarrow> lexer" where
  "interpolationLoop braceCount L =
     (if braceCount > 0 \<and> \<not> isAtEnd L
      then (let braceCount' =
                  (if getCurrentChar L = CHR ''{'' then braceCount + 1
                   else if getCurrentChar L = CHR ''}'' then braceCount - 1
                   else braceCount)
            in interpolationLoop braceCount' (if braceCount' > 0 then advance L else L))
      else L)"
  by pat_completeness auto
termination
proof (relation "measure (\<lambda>(b, L). 2 * remaining L + (if b > 0 then 1 else 0))")
  show "wf (measure (\<lambda>(b, L). 2 * remaining L + (if b > 0 then 1 else 0)))" by simp
next
  fix braceCount :: nat and L :: lexer and b' :: nat
  assume a: "0 < braceCount \<and> \<not> isAtEnd L"
    and b: "b' = (if getCurrentChar L = CHR ''{'' then braceCount + 1
                   else if getCurrentChar L = CHR ''}'' then braceCount - 1
                   else braceCount)"
  have "remaining (advance L) < remaining L" using a by simp
  then show "((b', if 0 < b' then advance L else L), braceCount, L)
      \<in> measure (\<lambda>(b, L). 2 * remaining L + (if b > 0 then 1 else 0))"
    using a by auto
qed

declare interpolationLoop.simps [simp del]

definition scanInterpolation :: "lexer \<Rightarrow> lexer" where
  "scanInterpolation L =
     (let L1 = advance L;
          start = position L1;
          L2 = interpolationLoop 1 L1;
          expression = substring (content L2) start (position L2);
          L3 = addToken INTERPOLATION (Some (Str expression)) L2
      in if getCurrentChar L3 = CHR ''}'' then advance L3 else L3)"

function identifierLoop :: "lexer \<Rightarrow> lexer" where
  "identifierLoop L =
     (if isAlphaNumeric (getCurrentChar L) \<or> getCurrentChar L = CHR ''-'' \<or> getCurrentChar L = CHR ''_''
      then identifierLoop (advance L) else L)"
  by pat_completeness auto
termination
proof (relation "measure remaining")
  show "wf (measure remaining)" by simp
next
  fix L :: lexer
  assume "isAlphaNumeric (getCurrentChar L) \<or> getCurrentChar L = CHR ''-'' \<or> getCurrentChar L = CHR ''_''"
  then have "\<not> isAtEnd L"
    by (auto simp: getCurrentChar_def isAlphaNumeric_def isAlpha_def isDigit_def split: if_splits)
  then show "(advance L, L) \<in> measure remaining" by simp
qed

declare identifierLoop.simps [simp del]

definition scanIdentifier :: "lexer \<Rightarrow> lexer" where
  "scanIdentifier L =
     (let start = position L;
          L1 = identifierLoop L;
          v = substring (content L1) start (position L1)
      in addToken IDENTIFIER (Some (Str v)) L1)"

function digitLoop :: "lexer \<Rightarrow> lexer" where
  "digitLoop L = (if isDigit (getCurrentChar L) then digitLoop (advance L) else L)"
  by pat_completeness auto
termination
proof (relation "measure remaining")
  show "wf (measure remaining)" by simp
next
  fix L :: lexer
  assume "isDigit (getCurrentChar L)"
  then have "\<not> isAtEnd L"
    by (auto simp: getCurrentChar_def isDigit_def split: if_splits)
  then show "(advance L, L) \<in> measure remaining" by simp
qed

declare digitLoop.simps [simp del]

definition scanNumber :: "lexer \<Rightarrow> lexer" where
  "scanNumber L =
     (let start = position L;
          L1 = digitLoop L;
          L2 = (if getCurrentChar L1 = CHR ''.'' \<and> isDigit (peek L1)
                then digitLoop (advance L1) else L1);
          v = substring (content L2) start (position L2)
      in addToken NUMBER (Some (Num v)) L2)"

definition operators :: "char \<Rightarrow> token_type option" where
  "operators = map_of
     [(CHR ''+'', PLUS), (CHR ''-'', MINUS), (CHR ''*'', MULTIPLY), (CHR ''/'', DIVIDE),
      (CHR ''='', ASSIGN), (CHR '':'', COLON), (CHR '';'', SEMICOLON), (CHR '','', COMMA),
      (CHR ''.'', DOT), (CHR ''!'', NOT), (CHR ''&'', AND), (CHR ''|'', OR)]"

definition scanOperator :: "lexer \<Rightarrow> lexer" where
  "scanOperator L =
     (let c = getCurrentChar L
      in if c = CHR ''+'' \<and> peek L = CHR ''+''
         then addToken INCREMENT None (advance (advance L))
         else if c = CHR ''-'' \<and> peek L = CHR ''-''
         then addToken DECREMENT None (advance (advance L))
         else if c = CHR ''='' \<and> peek L = CHR ''=''
         then addToken EQUAL None (advance (advance L))
         else if c = CHR ''!'' \<and> peek L = CHR ''=''
         then addToken NOT_EQUAL None (advance (advance L))
         else (case operators c of
                 Some ty \<Rightarrow> addToken ty None L
               | None \<Rightarrow> addToken TEXT (Some (Str [c])) L))"

text \<open>
  \<open>content[end]\<close> is \<open>undefined\<close> when the keyword ends the input, and the
  pattern of \<open>isAlpha\<close> matches the text of \<open>undefined\<close>.
\<close>

definition matchKeyword :: "string \<Rightarrow> lexer \<Rightarrow> bool" where
  "matchKeyword keyword L =
     (let start = position L;
          endIndex = start + length keyword
      in if endIndex > length (content L) then False
         else (let substr = substring (content L) start endIndex;
                   nextIsAlphaNumeric =
                     (if endIndex < length (content L) then isAlphaNumeric (content L ! endIndex)
                      else True)
               in substr = keyword \<and> \<not> nextIsAlphaNumeric))"

text \<open>\<open>s.lastIndexOf(pat)\<close>, with \<open>-1\<close> when there is no occurrence.\<close>

fun lastIndexOfFrom :: "string \<Rightarrow> string \<Rightarrow> nat \<Rightarrow> int" where
  "lastIndexOfFrom s pat 0 = (if startsWith s pat then 0 else - 1)"
| "lastIndexOfFrom s pat (Suc i) =
     (if startsWith (drop (Suc i) s) pat then int (Suc i) else lastIndexOfFrom s pat i)"

definition lastIndexOf :: "string \<Rightarrow> string \<Rightarrow> int" where
  "lastIndexOf s pat = lastIndexOfFrom s pat (length s)"

definition isInTemplate :: "lexer \<Rightarrow> bool" where
  "isInTemplate L =
     (let beforePosition = substring (content L) 0 (position L);
          lastTemplateStart = lastIndexOf beforePosition ''template {'';
          lastTemplateEnd = lastIndexOf beforePosition ''}''
      in lastTemplateStart > lastTemplateEnd)"

definition scanToken :: "lexer \<Rightarrow> lexer option" where
  "scanToken L =
     (let c = getCurrentChar L
      in if isWhitespace c then Some (advance L)
         else if c = CHR ''/'' \<and> peek L = CHR ''/'' then Some (skipLineComment L)
         else if c = CHR ''/'' \<and> peek L = CHR ''*'' then Some (skipBlockComment L)
         else if c = CHR ''<''
         then (let nextChars = substring (content L) (position L + 1) (position L + 10)
               in if startsWith nextChars ''component''
                  then scanComponentDeclaration L
                  else Some (scanHtmlTag L))
         else if matchKeyword ''style'' L then Some (addToken STYLE_BLOCK None L)
         else if matchKeyword ''state'' L then Some (addToken STATE_BLOCK None L)
         else if matchKeyword ''template'' L then Some (addToken TEMPLATE_BLOCK None L)
         else if matchKeyword ''props'' L then Some (addToken PROPS_BLOCK None L)
         else if c = CHR ''{'' then Some (addToken LEFT_BRACE None L)
         else if c = CHR ''}'' then Some (addToken RIGHT_BRACE None L)
         else if c = CHR ''('' then Some (addToken LEFT_PAREN None L)
         else if c = CHR '')'' then Some (addToken RIGHT_PAREN None L)
         else if c = CHR 0x22 \<or> c = CHR 0x27 then Some (scanString L)
         else if c = CHR ''{'' \<and> isInTemplate L then Some (scanInterpolation L)
         else if isAlpha c then Some (scanIdentifier L)
         else if isDigit c then Some (scanNumber L)
         else Some (scanOperator L))"

partial_function (option) tokenizeLoop :: "lexer \<Rightarrow> lexer option" where
  "tokenizeLoop L =
     (if position L < length (content L)
      then (case scanToken L of
              None \<Rightarrow> None
            | Some L' \<Rightarrow> tokenizeLoop L')
      else Some L)"

declare tokenizeLoop.simps [code]

definition tokenize :: "string \<Rightarrow> token list option" where
  "tokenize src =
     (case tokenizeLoop \<lparr>content = src, position = 0, tokens = []\<rparr> of
        None \<Rightarrow> None
      | Some L \<Rightarrow> Some (tokens (pushToken EOF (Str []) L)))"

section \<open>Parser\<close>

text \<open>The name of a token type as the source writes it.\<close>

fun typeName :: "token_type \<Rightarrow> string" where
  "typeName COMPONENT = ''COMPONENT''"
| "typeName HTML_TAG = ''HTML_TAG''"
| "typeName STYLE_BLOCK = ''STYLE_BLOCK''"
| "typeName STATE_BLOCK = ''STATE_BLOCK''"
| "typeName TEMPLATE_BLOCK = ''TEMPLATE_BLOCK''"
| "typeName PROPS_BLOCK = ''PROPS_BLOCK''"
| "typeName LEFT_BRACE = ''LEFT_BRACE''"
| "typeName RIGHT_BRACE = ''RIGHT_BRACE''"
| "typeName LEFT_PAREN = ''LEFT_PAREN''"
| "typeName RIGHT_PAREN = ''RIGHT_PAREN''"
| "typeName STRING = ''STRING''"
| "typeName INTERPOLATION = ''INTERPOLATION''"
| "typeName IDENTIFIER = ''IDENTIFIER''"
| "typeName NUMBER = ''NUMBER''"
| "typeName INCREMENT = ''INCREMENT''"
| "typeName DECREMENT = ''DECREMENT''"
| "typeName EQUAL = ''EQUAL''"
| "typeName NOT_EQUAL = ''NOT_EQUAL''"
| "typeName PLUS = ''PLUS''"
| "typeName MINUS = ''MINUS''"
| "typeName MULTIPLY = ''MULTIPLY''"
| "typeName DIVIDE = ''DIVIDE''"
| "typeName ASSIGN = ''ASSIGN''"
| "typeName COLON = ''COLON''"
| "typeName SEMICOLON = ''SEMICOLON''"
| "typeName COMMA = ''COMMA''"
| "typeName DOT = ''DOT''"
| "typeName NOT = ''NOT''"
| "typeName AND = ''AND''"
| "typeName OR = ''OR''"
| "typeName TEXT = ''TEXT''"
| "typeName EOF = ''EOF''"

text \<open>A natural number in decimal, as a template literal prints a line number.\<close>

fun digits :: "nat \<Rightarrow> nat \<Rightarrow> string" where
  "digits 0 n = []"
| "digits (Suc fuel) n =
     (if n < 10 then [''0123456789'' ! n]
      else digits fuel (n div 10) @ [''0123456789'' ! (n mod 10)])"

definition showNat :: "nat \<Rightarrow> string" where
  "showNat n = digits (Suc n) n"

text \<open>\<open>s.replace(pat, '')\<close> with a string pattern: the first occurrence is removed.\<close>

fun removeFirst :: "string \<Rightarrow> string \<Rightarrow> string" where
  "removeFirst pat [] = []"
| "removeFirst pat (c # cs) =
     (if startsWith (c # cs) pat then drop (length pat) (c # cs) else c # removeFirst pat cs)"

text \<open>
  The values of a state or props block. A number is kept as the literal it
  was read from.
\<close>

datatype pvalue =
    PNum string
  | PStr string
  | PBool bool
  | PNull
  | PObj "(string \<times> pvalue) list"

record parser =
  ptokens :: "token list"
  current :: nat

definition peekToken :: "parser \<Rightarrow> token" where
  "peekToken P =
     (if current P < length (ptokens P) then ptokens P ! current P
      else \<lparr>ttype = EOF, tvalue = Str [], line = 0\<rparr>)"

definition parserAtEnd :: "parser \<Rightarrow> bool" where
  "parserAtEnd P = (current P \<ge> length (ptokens P) \<or> ttype (peekToken P) = EOF)"

text \<open>
  \<open>advance()\<close> returns \<open>tokens[current - 1]\<close>, which is \<open>undefined\<close> when
  nothing has been consumed.
\<close>

definition parserAdvance :: "parser \<Rightarrow> token option \<times> parser" where
  "parserAdvance P =
     (let P' = (if \<not> parserAtEnd P then P\<lparr>current := current P + 1\<rparr> else P)
      in (if 0 < current P' \<and> current P' - 1 < length (ptokens P')
          then Some (ptokens P' ! (current P' - 1)) else None,
          P'))"

definition check :: "token_type \<Rightarrow> parser \<Rightarrow> bool" where
  "check ty P = (if parserAtEnd P then False else ttype (peekToken P) = ty)"

text \<open>An error raised inside \<open>parse\<close> is kept with the parser as it was when raised.\<close>

type_synonym 'a presult = "(js_error \<times> parser) + 'a"

definition consume :: "token_type \<Rightarrow> string \<Rightarrow> parser \<Rightarrow> parser presult" where
  "consume ty msg P =
     (if check ty P then Inr (snd (parserAdvance P))
      else Inl (Error (msg @ ''. Got '' @ typeName (ttype (peekToken P)) @ '' instead.''), P))"

definition valueText :: "token_value \<Rightarrow> string" where
  "valueText v = (case v of Str s \<Rightarrow> s | Num s \<Rightarrow> s)"

definition parseComponentName :: "parser \<Rightarrow> (string \<times> parser) presult" where
  "parseComponentName P =
     (case parserAdvance P of
        (None, P') \<Rightarrow> Inl (TypeError ''Cannot read properties of undefined'', P')
      | (Some tok, P') \<Rightarrow> Inr (removeFirst ''.ezu'' (valueText (tvalue tok)), P'))"

text \<open>
  \<open>parseValue\<close> and \<open>parseObject\<close> call each other. They are one function
  here: with \<open>None\<close> it is \<open>parseValue\<close>, with \<open>Some obj\<close> it is the loop of
  \<open>parseObject\<close> that has collected \<open>obj\<close> so far, followed by the closing
  \<open>consume\<close>.
\<close>

partial_function (option) parseValueOrObject ::
  "(string \<times> pvalue) list option \<Rightarrow> parser \<Rightarrow> (pvalue \<times> parser) presult option" where
  "parseValueOrObject mode P =
     (case mode of
        None \<Rightarrow>
          (let tok = peekToken P
           in if ttype tok = NUMBER then Some (Inr (PNum (valueText (tvalue tok)), snd (parserAdvance P)))
              else if ttype tok = STRING then Some (Inr (PStr (valueText (tvalue tok)), snd (parserAdvance P)))
              else if ttype tok = IDENTIFIER
              then Some (Inr (if valueText (tvalue tok) = ''true'' then PBool True
                              else if valueText (tvalue tok) = ''false'' then PBool False
                              else if valueText (tvalue tok) = ''null'' then PNull
                              else PStr (valueText (tvalue tok)),
                              snd (parserAdvance P)))
              else if ttype tok = LEFT_BRACE
              then (case consume LEFT_BRACE ''Expected \"{\"'' P of
                      Inl e \<Rightarrow> Some (Inl e)
                    | Inr P1 \<Rightarrow> parseValueOrObject (Some []) P1)
              else Some (Inl (Error (''Unexpected token type: '' @ typeName (ttype tok)), P)))
      | Some ob \<Rightarrow>
          (if \<not> check RIGHT_BRACE P \<and> \<not> parserAtEnd P
           then (case parserAdvance P of
                   (None, P1) \<Rightarrow> Some (Inl (TypeError ''Cannot read properties of undefined'', P1))
                 | (Some key, P1) \<Rightarrow>
                     if ttype key \<noteq> IDENTIFIER \<and> ttype key \<noteq> STRING
                     then Some (Inl (Error ''Expected property name'', P1))
                     else (case consume COLON ''Expected \":\" after property name'' P1 of
                             Inl e \<Rightarrow> Some (Inl e)
                           | Inr P2 \<Rightarrow>
                               Option.bind (parseValueOrObject None P2)
                                 (\<lambda>r. case r of
                                         Inl e \<Rightarrow> Some (Inl e)
                                       | Inr (v, P3) \<Rightarrow>
                                           parseValueOrObject
                                             (Some (setProp ob (valueText (tvalue key)) v))
                                             (if check COMMA P3 then snd (parserAdvance P3) else P3))))
           else (case consume RIGHT_BRACE ''Expected \"}\"'' P of
                   Inl e \<Rightarrow> Some (Inl e)
                 | Inr P1 \<Rightarrow> Some (Inr (PObj ob, P1)))))"

declare parseValueOrObject.simps [code]

definition parseValue :: "parser \<Rightarrow> (pvalue \<times> parser) presult option" where
  "parseValue P = parseValueOrObject None P"

definition parseStateProperty ::
  "parser \<Rightarrow> ((string \<times> pvalue) option \<times> parser) presult option" where
  "parseStateProperty P =
     (if check RIGHT_BRACE P then Some (Inr (None, P))
      else (case parserAdvance P of
              (None, P1) \<Rightarrow> Some (Inl (TypeError ''Cannot read properties of undefined'', P1))
            | (Some nameToken, P1) \<Rightarrow>
                if ttype nameToken \<noteq> IDENTIFIER
                then Some (Inl (Error (''Expected property name, got '' @ typeName (ttype nameToken)), P1))
                else (case consume COLON ''Expected \":\" after property name'' P1 of
                        Inl e \<Rightarrow> Some (Inl e)
                      | Inr P2 \<Rightarrow>
                          (case parseValue P2 of
                             None \<Rightarrow> None
                           | Some (Inl e) \<Rightarrow> Some (Inl e)
                           | Some (Inr (v, P3)) \<Rightarrow>
                               Some (Inr (Some (valueText (tvalue nameToken), v),
                                          if check SEMICOLON P3 then snd (parserAdvance P3) else P3))))))"

text \<open>The loop of \<open>parseStateBlock\<close> and of \<open>parsePropsBlock\<close>.\<close>

partial_function (option) propertiesLoop ::
  "(string \<times> pvalue) list \<Rightarrow> parser \<Rightarrow> ((string \<times> pvalue) list \<times> parser) presult option" where
  "propertiesLoop ob P =
     (if \<not> check RIGHT_BRACE P \<and> \<not> parserAtEnd P
      then (case parseStateProperty P of
              None \<Rightarrow> None
            | Some (Inl e) \<Rightarrow> Some (Inl e)
            | Some (Inr (None, P1)) \<Rightarrow> propertiesLoop ob P1
            | Some (Inr (Some (k, v), P1)) \<Rightarrow> propertiesLoop (setProp ob k v) P1)
      else Some (Inr (ob, P)))"

declare propertiesLoop.simps [code]

definition parseStateBlock :: "parser \<Rightarrow> ((string \<times> pvalue) list \<times> parser) presult option" where
  "parseStateBlock P =
     (case consume LEFT_BRACE ''Expected \"{\" after state'' (snd (parserAdvance P)) of
        Inl e \<Rightarrow> Some (Inl e)
      | Inr P1 \<Rightarrow>
          (case propertiesLoop [] P1 of
             None \<Rightarrow> None
           | Some (Inl e) \<Rightarrow> Some (Inl e)
           | Some (Inr (ob, P2)) \<Rightarrow>
               (case consume RIGHT_BRACE ''Expected \"}\" after state block'' P2 of
                  Inl e \<Rightarrow> Some (Inl e)
                | Inr P3 \<Rightarrow> Some (Inr (ob, P3)))))"

definition parsePropsBlock :: "parser \<Rightarrow> ((string \<times> pvalue) list \<times> parser) presult option" where
  "parsePropsBlock P =
     (case consume LEFT_BRACE ''Expected \"{\" after props'' (snd (parserAdvance P)) of
        Inl e \<Rightarrow> Some (Inl e)
      | Inr P1 \<Rightarrow>
          (case propertiesLoop [] P1 of
             None \<Rightarrow> None
           | Some (Inl e) \<Rightarrow> Some (Inl e)
           | Some (Inr (ob, P2)) \<Rightarrow>
               (case consume RIGHT_BRACE ''Expected \"}\" after props block'' P2 of
                  Inl e \<Rightarrow> Some (Inl e)
                | Inr P3 \<Rightarrow> Some (Inr (ob, P3)))))"

text \<open>
  Of \<open>parseStyleBlock\<close> and \<open>parseTemplateBlock\<close> the model has the entry: the
  keyword is skipped and the opening brace consumed. What follows (the style
  rules, and the markup with its pattern matching) is not needed by any
  property below and is a parameter: a function from the parser after the
  opening brace to the parsed block and the parser after it.
\<close>

definition parseStyleBlock ::
  "(parser \<Rightarrow> ('s \<times> parser) presult option) \<Rightarrow> parser \<Rightarrow> ('s \<times> parser) presult option" where
  "parseStyleBlock styleRules P =
     (case consume LEFT_BRACE ''Expected \"{\" after style'' (snd (parserAdvance P)) of
        Inl e \<Rightarrow> Some (Inl e)
      | Inr P1 \<Rightarrow> styleRules P1)"

definition parseTemplateBlock ::
  "(parser \<Rightarrow> ('t \<times> parser) presult option) \<Rightarrow> parser \<Rightarrow> ('t \<times> parser) presult option" where
  "parseTemplateBlock templateBody P =
     (case consume LEFT_BRACE ''Expected \"{\" after template'' (snd (parserAdvance P)) of
        Inl e \<Rightarrow> Some (Inl e)
      | Inr P1 \<Rightarrow> templateBody P1)"

text \<open>
  The component that \<open>parse\<close> builds, without its two constant fields (the
  type tag and the empty \<open>methods\<close> object).
\<close>

record ('s, 't) component =
  ast_name :: "string option"
  ast_style :: "'s option"
  ast_state :: "(string \<times> pvalue) list"
  ast_props :: "(string \<times> pvalue) list"
  ast_template :: "'t option"

partial_function (option) parseLoop ::
  "(parser \<Rightarrow> ('s \<times> parser) presult option) \<Rightarrow> (parser \<Rightarrow> ('t \<times> parser) presult option) \<Rightarrow>
   ('s, 't) component \<Rightarrow> parser \<Rightarrow> (('s, 't) component) presult option" where
  "parseLoop styleRules templateBody ast P =
     (if \<not> parserAtEnd P
      then (let tok = peekToken P
            in if ttype tok = COMPONENT
               then (case parseComponentName P of
                       Inl e \<Rightarrow> Some (Inl e)
                     | Inr (n, P1) \<Rightarrow>
                         parseLoop styleRules templateBody (ast\<lparr>ast_name := Some n\<rparr>) P1)
               else if ttype tok = STYLE_BLOCK
               then (case parseStyleBlock styleRules P of
                       None \<Rightarrow> None
                     | Some (Inl e) \<Rightarrow> Some (Inl e)
                     | Some (Inr (st, P1)) \<Rightarrow>
                         parseLoop styleRules templateBody (ast\<lparr>ast_style := Some st\<rparr>) P1)
               else if ttype tok = STATE_BLOCK
               then (case parseStateBlock P of
                       None \<Rightarrow> None
                     | Some (Inl e) \<Rightarrow> Some (Inl e)
                     | Some (Inr (ob, P1)) \<Rightarrow>
                         parseLoop styleRules templateBody (ast\<lparr>ast_state := ob\<rparr>) P1)
               else if ttype tok = PROPS_BLOCK
               then (case parsePropsBlock P of
                       None \<Rightarrow> None
                     | Some (Inl e) \<Rightarrow> Some (Inl e)
                     | Some (Inr (ob, P1)) \<Rightarrow>
                         parseLoop styleRules templateBody (ast\<lparr>ast_props := ob\<rparr>) P1)
               else if ttype tok = TEMPLATE_BLOCK
               then (case parseTemplateBlock templateBody P of
                       None \<Rightarrow> None
                     | Some (Inl e) \<Rightarrow> Some (Inl e)
                     | Some (Inr (tm, P1)) \<Rightarrow>
                         parseLoop styleRules templateBody (ast\<lparr>ast_template := Some tm\<rparr>) P1)
               else parseLoop styleRules templateBody ast (snd (parserAdvance P)))
      else Some (Inr ast))"

declare parseLoop.simps [code]

definition parse ::
  "(parser \<Rightarrow> ('s \<times> parser) presult option) \<Rightarrow> (parser \<Rightarrow> ('t \<times> parser) presult option) \<Rightarrow>
   string \<Rightarrow> (js_error + ('s, 't) component) option" where
  "parse styleRules templateBody src =
     (case tokenize src of
        None \<Rightarrow> None
      | Some toks \<Rightarrow>
          (case parseLoop styleRules templateBody
                  \<lparr>ast_name = None, ast_style = None, ast_state = [], ast_props = [],
                    ast_template = None\<rparr>
                  \<lparr>ptokens = toks, current = 0\<rparr> of
             None \<Rightarrow> None
           | Some (Inl (e, P)) \<Rightarrow>
               Some (Inl (Error (''Parse error: '' @ message e @ '' at line ''
                                 @ showNat (line (peekToken P)))))
           | Some (Inr ast) \<Rightarrow> Some (Inr ast)))"

section \<open>Reactive state\<close>

text \<open>
  State values are the primitive values of the host language. Numbers are
  integers here (no NaN), so that strict equality \<open>===\<close> on the values of the
  model is equality. Compound values, which \<open>===\<close> compares by reference, are
  outside the model.
\<close>

datatype jsval = JUndefined | JNull | JBool bool | JNum int | JStr string

text \<open>
  An object is its list of own enumerable properties in insertion order, and
  \<open>getProp\<close> is \<open>obj[key]\<close>.
\<close>

type_synonym obj = "(string \<times> jsval) list"

definition getProp :: "obj \<Rightarrow> string \<Rightarrow> jsval" where
  "getProp ob k = (case map_of ob k of None \<Rightarrow> JUndefined | Some v \<Rightarrow> v)"

text \<open>\<open>{ ...o }\<close>: a fresh object that receives the properties of \<open>o\<close> one by one.\<close>

definition spread :: "obj \<Rightarrow> obj" where
  "spread ob = foldl (\<lambda>acc (k, v). setProp acc k v) [] ob"

text \<open>The entries of the change lists handed to listeners, and of the history.\<close>

record change =
  c_property :: string
  c_value :: jsval
  c_oldValue :: jsval

record hentry =
  h_property :: string
  h_oldValue :: jsval
  h_newValue :: jsval
  h_timestamp :: nat

text \<open>
  A validation rule is a predicate, which may raise, and its message. A
  middleware receives \<open>(property, value, oldValue, data)\<close> and returns a
  replacement value, \<open>undefined\<close> to keep the value, or raises.
\<close>

type_synonym rule = "(jsval \<Rightarrow> js_error + bool) \<times> string"

type_synonym middleware_fn = "string \<Rightarrow> jsval \<Rightarrow> jsval \<Rightarrow> obj \<Rightarrow> js_error + jsval"

text \<open>
  The function given to \<open>computed\<close> takes no argument; it reaches the state
  through what it closes over. It is modelled by the reads it makes, each
  either directly on \<open>state.data\<close> or through a proxy made by \<open>createProxy\<close>,
  and by the value it returns from what it read. The reads are of plain
  properties.
\<close>

datatype reader =
    Return jsval
  | ReadData string "jsval \<Rightarrow> reader"
  | ReadProxy string "jsval \<Rightarrow> reader"

text \<open>
  What waits in the microtask queue: the rest of an \<open>update\<close> after its
  \<open>await\<close>, the flush scheduled by \<open>scheduleUpdate\<close>, and the listener round
  deferred by \<open>notifyListeners\<close>.
\<close>

datatype task =
    ResumeUpdate string jsval jsval
  | Flush
  | Notify "change list"

text \<open>
  The fields of \<open>ReactiveState\<close>. Sets and maps of the source are lists in
  insertion order. Listeners are identified by numbers; they observe only, and
  \<open>calls\<close> logs each invocation with the data and the change list it was
  given. \<open>getters\<close> holds the accessors that \<open>computed\<close> defines on \<open>data\<close>,
  \<open>updateReplaced\<close> tells whether \<open>this.update\<close> is the closure installed by
  \<open>transaction\<close>, \<open>microtasks\<close> is the queue of the event loop and \<open>now\<close> the
  reading of \<open>Date.now()\<close>. The operations on \<open>data\<close> below take plain keys:
  a computed name is not used as the key of a write.
\<close>

record rstate =
  data :: obj
  listeners :: "nat list"
  computedCache :: "(string \<times> jsval) list"
  dependencies :: "(string \<times> string list) list"
  initialState :: obj
  validation :: "(string \<times> rule list) list"
  middleware :: "middleware_fn list"
  history :: "hentry list"
  maxHistorySize :: nat
  batchedUpdates :: "change list"
  updateScheduled :: bool
  currentComputed :: "string option"
  getters :: "(string \<times> reader) list"
  updateReplaced :: bool
  microtasks :: "task list"
  calls :: "(nat \<times> obj \<times> change list) list"
  now :: nat

definition newReactiveState :: "obj \<Rightarrow> rstate" where
  "newReactiveState initial =
     \<lparr> data = spread initial, listeners = [], computedCache = [], dependencies = [],
       initialState = spread initial, validation = [], middleware = [], history = [],
       maxHistorySize = 50, batchedUpdates = [], updateScheduled = False,
       currentComputed = None, getters = [], updateReplaced = False, microtasks = [],
       calls = [], now = 0 \<rparr>"

text \<open>\<open>_cloneDeep\<close> returns a primitive value as it is.\<close>

definition cloneDeep :: "jsval \<Rightarrow> jsval" where
  "cloneDeep v = v"

subsection \<open>Validation and middleware\<close>

definition addValidation :: "string \<Rightarrow> (jsval \<Rightarrow> js_error + bool) \<Rightarrow> string \<Rightarrow> rstate \<Rightarrow> rstate" where
  "addValidation p validator errorMessage st =
     (let rs = (case map_of (validation st) p of None \<Rightarrow> [] | Some rs \<Rightarrow> rs)
      in st\<lparr>validation := AList.update p (rs @ [(validator, errorMessage)]) (validation st)\<rparr>)"

datatype validation_result = Valid | Invalid string

fun runValidators :: "rule list \<Rightarrow> jsval \<Rightarrow> validation_result" where
  "runValidators [] v = Valid"
| "runValidators ((validator, errorMessage) # rs) v =
     (case validator v of
        Inl e \<Rightarrow> Invalid (''Validation error: '' @ message e)
      | Inr ok \<Rightarrow> if \<not> ok then Invalid errorMessage else runValidators rs v)"

definition validateProperty :: "rstate \<Rightarrow> string \<Rightarrow> jsval \<Rightarrow> validation_result" where
  "validateProperty st p v =
     (case map_of (validation st) p of
        None \<Rightarrow> Valid
      | Some rs \<Rightarrow> runValidators rs v)"

definition addMiddleware :: "middleware_fn \<Rightarrow> rstate \<Rightarrow> rstate" where
  "addMiddleware m st = st\<lparr>middleware := middleware st @ [m]\<rparr>"

text \<open>
  The chain runs in order. Its \<open>await\<close>s are collapsed: every stage sees the
  data as of the call of \<open>update\<close>.
\<close>

fun applyMiddleware :: "middleware_fn list \<Rightarrow> string \<Rightarrow> jsval \<Rightarrow> jsval \<Rightarrow> obj \<Rightarrow> js_error + jsval" where
  "applyMiddleware [] p processedValue oldValue d = Inr processedValue"
| "applyMiddleware (m # ms) p processedValue oldValue d =
     (case m p processedValue oldValue d of
        Inl e \<Rightarrow> Inl e
      | Inr r \<Rightarrow> applyMiddleware ms p (if r \<noteq> JUndefined then r else processedValue) oldValue d)"

subsection \<open>Notification and computed properties\<close>

definition notifyListeners :: "change list \<Rightarrow> rstate \<Rightarrow> rstate" where
  "notifyListeners changeInfo st = st\<lparr>microtasks := microtasks st @ [Notify changeInfo]\<rparr>"

definition callListeners :: "change list \<Rightarrow> rstate \<Rightarrow> rstate" where
  "callListeners changeInfo st =
     st\<lparr>calls := calls st @ map (\<lambda>l. (l, data st, changeInfo)) (listeners st)\<rparr>"


definition invalidateComputedProperties :: "string \<Rightarrow> rstate \<Rightarrow> rstate" where
  "invalidateComputedProperties changedProperty st =
     st\<lparr>computedCache :=
          filter (\<lambda>(computedName, v).
                    \<not> (case map_of (dependencies st) computedName of
                          None \<Rightarrow> False
                        | Some deps \<Rightarrow> changedProperty \<in> set deps))
                 (computedCache st)\<rparr>"

text \<open>The \<open>get\<close> trap of the proxy: the bookkeeping before the read.\<close>

definition trackRead :: "string \<Rightarrow> rstate \<Rightarrow> rstate" where
  "trackRead p st =
     (case currentComputed st of
        None \<Rightarrow> st
      | Some c \<Rightarrow>
          if c = [] then st
          else (let deps = (case map_of (dependencies st) c of None \<Rightarrow> [] | Some ds \<Rightarrow> ds)
                in st\<lparr>dependencies :=
                        AList.update c (if p \<in> set deps then deps else deps @ [p]) (dependencies st)\<rparr>))"

definition proxyGet :: "string \<Rightarrow> rstate \<Rightarrow> jsval \<times> rstate" where
  "proxyGet p st = (getProp (data st) p, trackRead p st)"

text \<open>The \<open>set\<close> trap of the proxy.\<close>

definition proxySet :: "string \<Rightarrow> jsval \<Rightarrow> rstate \<Rightarrow> rstate" where
  "proxySet p v st =
     (let oldValue = getProp (data st) p
      in if oldValue \<noteq> v
         then invalidateComputedProperties p
                (notifyListeners [\<lparr>c_property = p, c_value = v, c_oldValue = oldValue\<rparr>]
                   (st\<lparr>data := setProp (data st) p v\<rparr>))
         else st)"

primrec evalReader :: "reader \<Rightarrow> rstate \<Rightarrow> jsval \<times> rstate" where
  "evalReader (Return v) st = (v, st)"
| "evalReader (ReadData p k) st = evalReader (k (getProp (data st) p)) st"
| "evalReader (ReadProxy p k) st = evalReader (k (getProp (data st) p)) (trackRead p st)"

definition computed :: "string \<Rightarrow> reader \<Rightarrow> rstate \<Rightarrow> rstate" where
  "computed name computeFn st = st\<lparr>getters := AList.update name computeFn (getters st)\<rparr>"

text \<open>The accessor that \<open>computed\<close> installs, run by a read of \<open>data[name]\<close>.\<close>

definition runGetter :: "string \<Rightarrow> reader \<Rightarrow> rstate \<Rightarrow> jsval \<times> rstate" where
  "runGetter name computeFn st =
     (case map_of (computedCache st) name of
        Some v \<Rightarrow> (v, st)
      | None \<Rightarrow>
          (let (v, st') = evalReader computeFn (st\<lparr>currentComputed := Some name\<rparr>);
               st'' = st'\<lparr>currentComputed := None\<rparr>
           in (v, st''\<lparr>computedCache := AList.update name v (computedCache st'')\<rparr>)))"

definition readComputed :: "string \<Rightarrow> rstate \<Rightarrow> jsval \<times> rstate" where
  "readComputed name st =
     (case map_of (getters st) name of
        None \<Rightarrow> (getProp (data st) name, st)
      | Some computeFn \<Rightarrow> runGetter name computeFn st)"

subsection \<open>Updates\<close>

text \<open>
  \<open>update\<close> is asynchronous. The call validates, reads the old value and runs
  the middleware chain; what follows the \<open>await\<close> is queued as a microtask. A
  raised error rejects the returned promise: the first component of the result.
\<close>

definition update :: "string \<Rightarrow> jsval \<Rightarrow> rstate \<Rightarrow> js_error option \<times> rstate" where
  "update p v st =
     (case validateProperty st p v of
        Invalid e \<Rightarrow> (Some (Error (''Validation failed for '' @ p @ '': '' @ e)), st)
      | Valid \<Rightarrow>
          (let oldValue = getProp (data st) p
           in (case applyMiddleware (middleware st) p v oldValue (data st) of
                 Inl e \<Rightarrow> (Some e, st)
               | Inr processedValue \<Rightarrow>
                   (None, st\<lparr>microtasks := microtasks st @ [ResumeUpdate p processedValue oldValue]\<rparr>))))"

definition scheduleUpdate :: "rstate \<Rightarrow> rstate" where
  "scheduleUpdate st =
     (if updateScheduled st then st
      else st\<lparr>updateScheduled := True, microtasks := microtasks st @ [Flush]\<rparr>)"

definition resumeUpdate :: "string \<Rightarrow> jsval \<Rightarrow> jsval \<Rightarrow> rstate \<Rightarrow> rstate" where
  "resumeUpdate p processedValue oldValue st =
     (let h = (if length (history st) \<ge> maxHistorySize st then tl (history st) else history st);
          h' = h @ [\<lparr>h_property = p, h_oldValue = cloneDeep oldValue,
                     h_newValue = cloneDeep processedValue, h_timestamp = now st\<rparr>]
      in scheduleUpdate
           (st\<lparr>history := h',
               data := setProp (data st) p processedValue,
               batchedUpdates := batchedUpdates st
                  @ [\<lparr>c_property = p, c_value = processedValue, c_oldValue = oldValue\<rparr>]\<rparr>))"

definition flushUpdates :: "rstate \<Rightarrow> rstate" where
  "flushUpdates st =
     (if batchedUpdates st = [] then st
      else (let updates = batchedUpdates st;
                st1 = st\<lparr>batchedUpdates := [], updateScheduled := False\<rparr>;
                st2 = callListeners updates st1
            in foldl (\<lambda>s u. invalidateComputedProperties (c_property u) s) st2 updates))"

fun changedProperties :: "obj \<Rightarrow> obj \<Rightarrow> obj \<times> change list" where
  "changedProperties [] d = (d, [])"
| "changedProperties ((p, v) # us) d =
     (let oldValue = getProp d p
      in if oldValue \<noteq> v
         then (let (d', cs) = changedProperties us (setProp d p v)
               in (d', \<lparr>c_property = p, c_value = v, c_oldValue = oldValue\<rparr> # cs))
         else changedProperties us d)"

definition updateBatch :: "obj \<Rightarrow> rstate \<Rightarrow> rstate" where
  "updateBatch updates st =
     (let (d', changed) = changedProperties updates (data st);
          st' = st\<lparr>data := d'\<rparr>
      in if length changed > 0 then notifyListeners changed st' else st')"

definition undo :: "rstate \<Rightarrow> bool \<times> rstate" where
  "undo st =
     (if length (history st) = 0 then (False, st)
      else (let lastChange = last (history st);
                st' = st\<lparr>history := butlast (history st),
                         data := setProp (data st) (h_property lastChange) (h_oldValue lastChange)\<rparr>
            in (True, notifyListeners
                        [\<lparr>c_property = h_property lastChange, c_value = h_oldValue lastChange,
                          c_oldValue = h_newValue lastChange\<rparr>] st')))"

definition clearHistory :: "rstate \<Rightarrow> rstate" where
  "clearHistory st = st\<lparr>history := []\<rparr>"

subsection \<open>Transactions\<close>

text \<open>
  The function given to \<open>transaction\<close> receives \<open>this.data\<close>. It is modelled by
  what it does in order: calls of \<open>update\<close>, assignments to properties of the
  object it was given, and a \<open>throw\<close>.
\<close>

datatype txn_cmd = TxUpdate string jsval | TxWrite string jsval | TxThrow js_error

text \<open>
  While the function runs, \<open>this.update\<close> is the closure that records the write
  in \<open>updates\<close> and assigns the property.
\<close>

fun runTxn :: "txn_cmd list \<Rightarrow> obj \<Rightarrow> change list \<Rightarrow> js_error option \<times> obj \<times> change list" where
  "runTxn [] d updates = (None, d, updates)"
| "runTxn (TxUpdate p v # cs) d updates =
     runTxn cs (setProp d p v)
       (updates @ [\<lparr>c_property = p, c_value = v, c_oldValue = getProp d p\<rparr>])"
| "runTxn (TxWrite p v # cs) d updates = runTxn cs (setProp d p v) updates"
| "runTxn (TxThrow e # cs) d updates = (Some e, d, updates)"

text \<open>
  \<open>_cloneDeep(this.data)\<close> reads every own property, which runs the accessors
  of the computed properties; in the copy they are plain properties. The
  model lists the plain keys first.
\<close>

fun cloneGetters :: "(string \<times> reader) list \<Rightarrow> rstate \<Rightarrow> obj \<times> rstate" where
  "cloneGetters [] st = ([], st)"
| "cloneGetters ((name, computeFn) # gs) st =
     (let (v, st') = runGetter name computeFn st;
          (ob, st'') = cloneGetters gs st'
      in ((name, cloneDeep v) # ob, st''))"

definition cloneData :: "rstate \<Rightarrow> obj \<times> rstate" where
  "cloneData st =
     (let (computedValues, st') = cloneGetters (getters st) st
      in (foldl (\<lambda>acc (k, v). setProp acc k v) (map (\<lambda>(k, v). (k, cloneDeep v)) (data st)) computedValues,
          st'))"

definition transaction :: "txn_cmd list \<Rightarrow> rstate \<Rightarrow> js_error option \<times> rstate" where
  "transaction updateFn st =
     (let (originalData, st0) = cloneData st;
          originalUpdate = updateReplaced st0;
          st1 = st0\<lparr>updateReplaced := True\<rparr>
      in (case runTxn updateFn (data st1) [] of
            (Some e, d, updates) \<Rightarrow>
              (Some e, st1\<lparr>data := originalData, getters := []\<rparr>)
          | (None, d, updates) \<Rightarrow>
              (let st2 = st1\<lparr>data := d, updateReplaced := originalUpdate\<rparr>;
                   batchUpdate = foldl (\<lambda>b u. setProp b (c_property u) (c_value u)) [] updates
               in (None, updateBatch batchUpdate st2))))"

text \<open>
  A call \<open>state.update(p, v)\<close> runs whatever \<open>this.update\<close> is at that moment:
  the method of the class, or the closure left by a transaction.
\<close>

definition callUpdate :: "string \<Rightarrow> jsval \<Rightarrow> rstate \<Rightarrow> js_error option \<times> rstate" where
  "callUpdate p v st =
     (if updateReplaced st then (None, st\<lparr>data := setProp (data st) p v\<rparr>)
      else update p v st)"

subsection \<open>The event loop\<close>

definition runTask :: "task \<Rightarrow> rstate \<Rightarrow> rstate" where
  "runTask t st =
     (case t of
        ResumeUpdate p processedValue oldValue \<Rightarrow> resumeUpdate p processedValue oldValue st
      | Flush \<Rightarrow> flushUpdates st
      | Notify changeInfo \<Rightarrow> callListeners changeInfo st)"

text \<open>One microtask: the first of the queue, if there is one.\<close>

definition tick :: "rstate \<Rightarrow> rstate" where
  "tick st =
     (case microtasks st of
        [] \<Rightarrow> st
      | t # ts \<Rightarrow> runTask t (st\<lparr>microtasks := ts\<rparr>))"

fun taskWeight :: "task \<Rightarrow> nat" where
  "taskWeight (ResumeUpdate p v old) = 2"
| "taskWeight Flush = 1"
| "taskWeight (Notify cs) = 1"

definition queueWeight :: "rstate \<Rightarrow> nat" where
  "queueWeight st = sum_list (map taskWeight (microtasks st))"

lemma microtasks_invalidate [simp]:
  "microtasks (invalidateComputedProperties p st) = microtasks st"
  by (simp add: invalidateComputedProperties_def)

lemma microtasks_foldl_invalidate [simp]:
  "microtasks (foldl (\<lambda>s u. invalidateComputedProperties (c_property u) s) st us) = microtasks st"
  by (induction us arbitrary: st) simp_all

lemma queueWeight_runTask:
  "queueWeight (runTask t st) < taskWeight t + queueWeight st"
  by (cases t)
     (simp_all add: runTask_def queueWeight_def resumeUpdate_def scheduleUpdate_def
        flushUpdates_def callListeners_def Let_def)

function runMicrotasks :: "rstate \<Rightarrow> rstate" where
  "runMicrotasks st =
     (case microtasks st of
        [] \<Rightarrow> st
      | t # ts \<Rightarrow> runMicrotasks (runTask t (st\<lparr>microtasks := ts\<rparr>)))"
  by pat_completeness auto
termination
proof (relation "measure queueWeight")
  show "wf (measure queueWeight)" by simp
next
  fix st :: rstate and t ts
  assume "microtasks st = t # ts"
  then show "(runTask t (st\<lparr>microtasks := ts\<rparr>), st) \<in> measure queueWeight"
    using queueWeight_runTask [of t "st\<lparr>microtasks := ts\<rparr>"]
    by (simp add: queueWeight_def)
qed

datatype operation =
    Update string jsval
  | UpdateBatch obj
  | Undo
  | ClearHistory
  | Transaction "txn_cmd list"

datatype event = Call operation | Microtask

fun callOperation :: "operation \<Rightarrow> rstate \<Rightarrow> rstate" where
  "callOperation (Update p v) st = snd (callUpdate p v st)"
| "callOperation (UpdateBatch updates) st = updateBatch updates st"
| "callOperation Undo st = snd (undo st)"
| "callOperation ClearHistory st = clearHistory st"
| "callOperation (Transaction updateFn) st = snd (transaction updateFn st)"

fun runEvent :: "event \<Rightarrow> rstate \<Rightarrow> rstate" where
  "runEvent (Call operation) st = callOperation operation st"
| "runEvent Microtask st = tick st"

definition run :: "event list \<Rightarrow> rstate \<Rightarrow> rstate" where
  "run evs st = foldl (\<lambda>s e. runEvent e s) st evs"

section \<open>Notions used in the statements\<close>

text \<open>
  Two states have the same core when they differ at most in the bookkeeping of
  computed properties: the cache, the dependency table and the marker of the
  computed property under evaluation.
\<close>

definition sameCore :: "rstate \<Rightarrow> rstate \<Rightarrow> bool" where
  "sameCore st st' \<longleftrightarrow>
     data st' = data st \<and> listeners st' = listeners st \<and> initialState st' = initialState st \<and>
     validation st' = validation st \<and> middleware st' = middleware st \<and>
     history st' = history st \<and> maxHistorySize st' = maxHistorySize st \<and>
     batchedUpdates st' = batchedUpdates st \<and> updateScheduled st' = updateScheduled st \<and>
     getters st' = getters st \<and> updateReplaced st' = updateReplaced st \<and>
     microtasks st' = microtasks st \<and> calls st' = calls st \<and> now st' = now st"

definition historyBounded :: "rstate \<Rightarrow> bool" where
  "historyBounded st \<longleftrightarrow> maxHistorySize st = 50 \<and> length (history st) \<le> 50"




text \<open>The object \<open>batchUpdate\<close> that \<open>transaction\<close> builds from the captured writes.\<close>

definition batchOf :: "change list \<Rightarrow> obj" where
  "batchOf updates = foldl (\<lambda>b u. setProp b (c_property u) (c_value u)) [] updates"

text \<open>Every key among the captured writes holds the value of its last captured write.\<close>

definition writesVisible :: "obj \<Rightarrow> change list \<Rightarrow> bool" where
  "writesVisible d ups \<longleftrightarrow>
     (\<forall>k. filter (\<lambda>u. c_property u = k) ups \<noteq> [] \<longrightarrow>
          getProp d k = c_value (last (filter (\<lambda>u. c_property u = k) ups)))"

text \<open>No token collected so far is an interpolation token.\<close>

definition noInterpolation :: "lexer \<Rightarrow> bool" where
  "noInterpolation L \<longleftrightarrow> INTERPOLATION \<notin> ttype ` set (tokens L)"

subsection \<open>Example states\<close>

text \<open>The range check that the compiler attaches to a numeric key named like an age.\<close>

definition ageRule :: "jsval \<Rightarrow> js_error + bool" where
  "ageRule v = (case v of JNum n \<Rightarrow> Inr (0 \<le> n \<and> n \<le> 150) | _ \<Rightarrow> Inr False)"

definition agedState :: rstate where
  "agedState = addValidation ''age'' ageRule ''Age must be between 0 and 150''
                 (newReactiveState [(''age'', JNum 30)])"

definition fullHistory :: rstate where
  "fullHistory = (newReactiveState [(''n'', JNum 0)])
      \<lparr>history := replicate 50 \<lparr>h_property = ''n'', h_oldValue = JNum 0,
                                 h_newValue = JNum 0, h_timestamp = 0\<rparr>\<rparr>"


text \<open>
  The state and the computed property of the repository's test of computed
  properties, \<open>() => state.data.a + state.data.b\<close>, and the same sum read
  through a proxy.
\<close>

definition addValues :: "jsval \<Rightarrow> jsval \<Rightarrow> jsval" where
  "addValues x y = (case (x, y) of (JNum m, JNum n) \<Rightarrow> JNum (m + n) | _ \<Rightarrow> JUndefined)"

definition sumViaProxy :: reader where
  "sumViaProxy = ReadProxy ''a'' (\<lambda>x. ReadProxy ''b'' (\<lambda>y. Return (addValues x y)))"

definition sumViaData :: reader where
  "sumViaData = ReadData ''a'' (\<lambda>x. ReadData ''b'' (\<lambda>y. Return (addValues x y)))"

definition ab :: rstate where
  "ab = newReactiveState [(''a'', JNum 5), (''b'', JNum 10)]"

section \<open>Properties of selector scoping\<close>

lemma split_no_sep: "c \<notin> set s \<Longrightarrow> split c s = [s]"
  by (induction s) auto

lemma split_first_sep:
  "c \<notin> set base \<Longrightarrow> split c (base @ c # rest) = base # split c rest"
  by (induction base) (auto split: list.splits)

text \<open>
  C4 (as amended). A selector that starts with \<open>:host\<close> is returned unchanged.
  A selector \<open>base:rest\<close> with exactly one colon that does not start with
  \<open>:host\<close> becomes \<open>.s trim(base):trim(rest)\<close>, both parts with their
  surrounding white space removed. In particular \<open>button:hover\<close> scoped with
  \<open>s1\<close> is \<open>.s1 button:hover\<close>.
\<close>

theorem scopeSelector_one_colon:
  "(startsWith sel '':host'' \<longrightarrow> scopeSelector sel s = Inr sel) \<and>
   (\<not> startsWith (base @ CHR '':'' # rest) '':host'' \<and> CHR '':'' \<notin> set base \<and> CHR '':'' \<notin> set rest
      \<longrightarrow> scopeSelector (base @ CHR '':'' # rest) s
            = Inr (''.'' @ s @ '' '' @ trim base @ '':'' @ trim rest)) \<and>
   scopeSelector ''button:hover'' ''s1'' = Inr ''.s1 button:hover''"
proof (intro conjI impI)
  assume "startsWith sel '':host''"
  then show "scopeSelector sel s = Inr sel"
    by (simp add: scopeSelector_def)
next
  assume h: "\<not> startsWith (base @ CHR '':'' # rest) '':host'' \<and> CHR '':'' \<notin> set base \<and> CHR '':'' \<notin> set rest"
  then have "split CHR '':'' (base @ CHR '':'' # rest) = [base, rest]"
    by (simp add: split_first_sep split_no_sep)
  with h show "scopeSelector (base @ CHR '':'' # rest) s
      = Inr (''.'' @ s @ '' '' @ trim base @ '':'' @ trim rest)"
    by (simp add: scopeSelector_def includesChar_def)
next
  show "scopeSelector ''button:hover'' ''s1'' = Inr ''.s1 button:hover''"
    by (simp add: scopeSelector_def startsWith_def includesChar_def trim_def isTrimSpace_def)
qed

theorem scopeSelector_one_colon_witness:
  "startsWith '':host(.x)'' '':host'' \<and> scopeSelector '':host(.x)'' ''s1'' = Inr '':host(.x)'' \<and>
   scopeSelector ''a :focus'' ''s1'' = Inr ''.s1 a:focus''"
proof -
  have h1: "startsWith '':host(.x)'' '':host''"
    by (simp add: startsWith_def)
  have h2: "\<not> startsWith (''a '' @ CHR '':'' # ''focus'') '':host'' \<and> CHR '':'' \<notin> set ''a '' \<and> CHR '':'' \<notin> set ''focus''"
    by (simp add: startsWith_def)
  have t: "trim ''a '' = ''a''" "trim ''focus'' = ''focus''"
    by (simp_all add: trim_def isTrimSpace_def)
  from scopeSelector_one_colon [of "'':host(.x)''" "''s1''" "''a ''" "''focus''"] h1 h2 t
  show ?thesis by simp
qed

text \<open>
  The statement of C4 as written fails in two ways: the two parts are trimmed,
  and of a selector with more than one colon only the first two segments are
  kept.
\<close>

theorem scopeSelector_counterexample:
  "scopeSelector ''a :focus'' ''s1'' \<noteq> Inr (''.'' @ ''s1'' @ '' '' @ ''a '' @ '':'' @ ''focus'') \<and>
   scopeSelector ''a::before'' ''s1'' = Inr ''.s1 a:'' \<and>
   scopeSelector ''a::before'' ''s1'' \<noteq> Inr (''.'' @ ''s1'' @ '' '' @ ''a'' @ '':'' @ '':before'')"
  by (simp add: scopeSelector_def startsWith_def includesChar_def trim_def isTrimSpace_def)

section \<open>Reactive state: what an operation leaves alone\<close>

lemma sameCore_refl [simp]: "sameCore st st"
  by (simp add: sameCore_def)

lemma sameCore_trans: "sameCore a b \<Longrightarrow> sameCore b c \<Longrightarrow> sameCore a c"
  by (simp add: sameCore_def)

lemma sameCore_invalidate [simp]: "sameCore st (invalidateComputedProperties p st)"
  by (simp add: sameCore_def invalidateComputedProperties_def)

lemma sameCore_foldl_invalidate:
  "sameCore st (foldl (\<lambda>s u. invalidateComputedProperties (c_property u) s) st us)"
proof (induction us arbitrary: st)
  case Nil
  show ?case by simp
next
  case (Cons u us)
  show ?case
    using sameCore_trans [OF sameCore_invalidate Cons.IH] by simp
qed

lemma sameCore_trackRead [simp]: "sameCore st (trackRead p st)"
  by (simp add: sameCore_def trackRead_def Let_def split: option.splits)

lemma sameCore_evalReader: "sameCore st (snd (evalReader r st))"
proof (induction r arbitrary: st)
  case (Return v)
  show ?case by simp
next
  case (ReadData p k)
  then show ?case by simp
next
  case (ReadProxy p k)
  have "sameCore (trackRead p st) (snd (evalReader (k (getProp (data st) p)) (trackRead p st)))"
    using ReadProxy.IH by blast
  then show ?case
    using sameCore_trans [OF sameCore_trackRead] by simp
qed

lemma sameCore_runGetter: "sameCore st (snd (runGetter name f st))"
proof (cases "map_of (computedCache st) name")
  case (Some v)
  then show ?thesis by (simp add: runGetter_def)
next
  case None
  have "sameCore (st\<lparr>currentComputed := Some name\<rparr>)
          (snd (evalReader f (st\<lparr>currentComputed := Some name\<rparr>)))"
    by (rule sameCore_evalReader)
  with None show ?thesis
    by (simp add: runGetter_def Let_def sameCore_def case_prod_beta)
qed

lemma sameCore_cloneGetters: "sameCore st (snd (cloneGetters gs st))"
proof (induction gs arbitrary: st)
  case Nil
  show ?case by simp
next
  case (Cons g gs)
  obtain name f where g: "g = (name, f)" by (cases g)
  have "sameCore (snd (runGetter name f st)) (snd (cloneGetters gs (snd (runGetter name f st))))"
    by (rule Cons.IH)
  then have "sameCore st (snd (cloneGetters gs (snd (runGetter name f st))))"
    using sameCore_trans [OF sameCore_runGetter] by blast
  then show ?case
    by (simp add: g case_prod_beta)
qed

lemma sameCore_cloneData: "sameCore st (snd (cloneData st))"
  using sameCore_cloneGetters [of st "getters st"]
  by (simp add: cloneData_def case_prod_beta)

section \<open>Reactive state: validation\<close>




section \<open>Reactive state: the bounded history\<close>

lemma historyBounded_new: "historyBounded (newReactiveState initial)"
  by (simp add: historyBounded_def newReactiveState_def)

lemma history_update:
  "history (snd (update p v st)) = history st \<and> maxHistorySize (snd (update p v st)) = maxHistorySize st"
  by (simp add: update_def Let_def split: validation_result.splits sum.splits)

lemma history_callUpdate:
  "history (snd (callUpdate p v st)) = history st \<and>
   maxHistorySize (snd (callUpdate p v st)) = maxHistorySize st"
  by (simp add: callUpdate_def history_update)

lemma history_updateBatch:
  "history (updateBatch us st) = history st \<and> maxHistorySize (updateBatch us st) = maxHistorySize st"
  by (simp add: updateBatch_def notifyListeners_def Let_def case_prod_beta)

lemma history_transaction:
  "history (snd (transaction fn st)) = history st \<and>
   maxHistorySize (snd (transaction fn st)) = maxHistorySize st"
  using sameCore_cloneData [of st]
  by (simp add: transaction_def Let_def case_prod_beta sameCore_def history_updateBatch
      split: option.splits)

lemma historyBounded_callOperation:
  "historyBounded st \<Longrightarrow> historyBounded (callOperation operation st)"
proof (cases operation)
  case (Update p v)
  then show "historyBounded st \<Longrightarrow> ?thesis"
    by (simp add: historyBounded_def history_callUpdate)
next
  case (UpdateBatch us)
  then show "historyBounded st \<Longrightarrow> ?thesis"
    by (simp add: historyBounded_def history_updateBatch)
next
  case Undo
  then show "historyBounded st \<Longrightarrow> ?thesis"
    by (auto simp: historyBounded_def undo_def notifyListeners_def Let_def)
next
  case ClearHistory
  then show "historyBounded st \<Longrightarrow> ?thesis"
    by (simp add: historyBounded_def clearHistory_def)
next
  case (Transaction fn)
  then show "historyBounded st \<Longrightarrow> ?thesis"
    by (simp add: historyBounded_def history_transaction)
qed

lemma historyBounded_resumeUpdate:
  "historyBounded st \<Longrightarrow> historyBounded (resumeUpdate p v old st)"
  by (auto simp: historyBounded_def resumeUpdate_def scheduleUpdate_def Let_def)

lemma historyBounded_flushUpdates:
  "historyBounded st \<Longrightarrow> historyBounded (flushUpdates st)"
  using sameCore_foldl_invalidate
    [of "callListeners (batchedUpdates st) (st\<lparr>batchedUpdates := [], updateScheduled := False\<rparr>)"
        "batchedUpdates st"]
  by (simp add: historyBounded_def flushUpdates_def Let_def sameCore_def callListeners_def)

lemma historyBounded_tick: "historyBounded st \<Longrightarrow> historyBounded (tick st)"
proof (cases "microtasks st")
  case Nil
  then show "historyBounded st \<Longrightarrow> ?thesis" by (simp add: tick_def)
next
  case (Cons t ts)
  assume b: "historyBounded st"
  then have b': "historyBounded (st\<lparr>microtasks := ts\<rparr>)"
    by (simp add: historyBounded_def)
  show ?thesis
  proof (cases t)
    case (ResumeUpdate p v old)
    with Cons historyBounded_resumeUpdate [OF b'] show ?thesis
      by (simp add: tick_def runTask_def)
  next
    case Flush
    with Cons historyBounded_flushUpdates [OF b'] show ?thesis
      by (simp add: tick_def runTask_def)
  next
    case (Notify cs)
    with Cons b' show ?thesis
      by (simp add: tick_def runTask_def callListeners_def historyBounded_def)
  qed
qed

lemma historyBounded_run: "historyBounded st \<Longrightarrow> historyBounded (run evs st)"
proof (induction evs arbitrary: st)
  case Nil
  then show ?case by (simp add: run_def)
next
  case (Cons e evs)
  have "historyBounded (runEvent e st)"
    using Cons.prems by (cases e) (simp_all add: historyBounded_callOperation historyBounded_tick)
  then have "historyBounded (run evs (runEvent e st))" by (rule Cons.IH)
  then show ?case by (simp add: run_def)
qed

text \<open>
  C9. After every sequence of calls of \<open>update\<close>, \<open>updateBatch\<close>, \<open>undo\<close>,
  \<open>clearHistory\<close> and \<open>transaction\<close> on a fresh state, interleaved in any way
  with the microtasks they queue, the history holds at most 50 entries. When
  an accepted \<open>update\<close> meets a history at its capacity, the oldest entry is
  removed and the new entry is appended at the end.
\<close>

theorem history_never_exceeds_cap:
  "length (history (run evs (newReactiveState initial))) \<le> 50 \<and>
   (validateProperty st p v = Valid \<and>
    applyMiddleware (middleware st) p v (getProp (data st) p) (data st) = Inr processedValue \<and>
    microtasks st = [] \<and> length (history st) \<ge> maxHistorySize st
    \<longrightarrow> history (tick (snd (update p v st)))
          = tl (history st) @ [\<lparr>h_property = p, h_oldValue = getProp (data st) p,
                                 h_newValue = processedValue, h_timestamp = now st\<rparr>])"
proof (intro conjI impI)
  show "length (history (run evs (newReactiveState initial))) \<le> 50"
    using historyBounded_run [OF historyBounded_new, of evs initial]
    by (simp add: historyBounded_def)
next
  assume "validateProperty st p v = Valid \<and>
    applyMiddleware (middleware st) p v (getProp (data st) p) (data st) = Inr processedValue \<and>
    microtasks st = [] \<and> length (history st) \<ge> maxHistorySize st"
  then show "history (tick (snd (update p v st)))
          = tl (history st) @ [\<lparr>h_property = p, h_oldValue = getProp (data st) p,
                                 h_newValue = processedValue, h_timestamp = now st\<rparr>]"
    by (simp add: update_def tick_def runTask_def resumeUpdate_def scheduleUpdate_def
        Let_def cloneDeep_def)
qed

theorem history_never_exceeds_cap_witness:
  "validateProperty fullHistory ''n'' (JNum 7) = Valid \<and>
   applyMiddleware (middleware fullHistory) ''n'' (JNum 7) (getProp (data fullHistory) ''n'')
     (data fullHistory) = Inr (JNum 7) \<and>
   microtasks fullHistory = [] \<and> length (history fullHistory) \<ge> maxHistorySize fullHistory \<and>
   length (history (run [Call (Update ''n'' (JNum 7)), Microtask] fullHistory)) = 50 \<and>
   history (tick (snd (update ''n'' (JNum 7) fullHistory)))
     = replicate 49 \<lparr>h_property = ''n'', h_oldValue = JNum 0, h_newValue = JNum 0, h_timestamp = 0\<rparr>
       @ [\<lparr>h_property = ''n'', h_oldValue = JNum 0, h_newValue = JNum 7, h_timestamp = 0\<rparr>]"
proof -
  have h: "validateProperty fullHistory ''n'' (JNum 7) = Valid \<and>
    applyMiddleware (middleware fullHistory) ''n'' (JNum 7) (getProp (data fullHistory) ''n'')
      (data fullHistory) = Inr (JNum 7) \<and>
    microtasks fullHistory = [] \<and> length (history fullHistory) \<ge> maxHistorySize fullHistory"
    by (simp add: fullHistory_def newReactiveState_def validateProperty_def)
  have d: "getProp (data fullHistory) ''n'' = JNum 0" "now fullHistory = 0"
    "history fullHistory = replicate 50 \<lparr>h_property = ''n'', h_oldValue = JNum 0,
                                 h_newValue = JNum 0, h_timestamp = 0\<rparr>"
    "updateReplaced fullHistory = False"
    by (simp_all add: fullHistory_def newReactiveState_def spread_def getProp_def)
  have r: "run [Call (Update ''n'' (JNum 7)), Microtask] fullHistory
             = tick (snd (update ''n'' (JNum 7) fullHistory))"
    by (simp add: run_def callUpdate_def d)
  from history_never_exceeds_cap [of "[]" "[]" fullHistory "''n''" "JNum 7" "JNum 7"] h d r
  show ?thesis by simp
qed

section \<open>Reactive state: the method left behind by a failed transaction\<close>

lemma replaced_callOperation:
  "updateReplaced st \<Longrightarrow> updateReplaced (callOperation operation st)"
proof (cases operation)
  case (Update p v)
  then show "updateReplaced st \<Longrightarrow> ?thesis"
    by (simp add: callUpdate_def)
next
  case (UpdateBatch us)
  then show "updateReplaced st \<Longrightarrow> ?thesis"
    by (simp add: updateBatch_def notifyListeners_def Let_def case_prod_beta)
next
  case Undo
  then show "updateReplaced st \<Longrightarrow> ?thesis"
    by (simp add: undo_def notifyListeners_def Let_def)
next
  case ClearHistory
  then show "updateReplaced st \<Longrightarrow> ?thesis"
    by (simp add: clearHistory_def)
next
  case (Transaction fn)
  then show "updateReplaced st \<Longrightarrow> ?thesis"
    using sameCore_cloneData [of st]
    by (simp add: transaction_def Let_def case_prod_beta sameCore_def updateBatch_def
        notifyListeners_def split: option.splits)
qed

lemma replaced_tick: "updateReplaced st \<Longrightarrow> updateReplaced (tick st)"
proof (cases "microtasks st")
  case Nil
  then show "updateReplaced st \<Longrightarrow> ?thesis" by (simp add: tick_def)
next
  case (Cons t ts)
  assume r: "updateReplaced st"
  show ?thesis
  proof (cases t)
    case (ResumeUpdate p v old)
    with Cons r show ?thesis
      by (simp add: tick_def runTask_def resumeUpdate_def scheduleUpdate_def Let_def)
  next
    case Flush
    with Cons r sameCore_foldl_invalidate
      [of "callListeners (batchedUpdates st) (st\<lparr>microtasks := ts, batchedUpdates := [], updateScheduled := False\<rparr>)"
          "batchedUpdates st"]
    show ?thesis
      by (simp add: tick_def runTask_def flushUpdates_def Let_def sameCore_def callListeners_def)
  next
    case (Notify cs)
    with Cons r show ?thesis
      by (simp add: tick_def runTask_def callListeners_def)
  qed
qed

lemma replaced_run: "updateReplaced st \<Longrightarrow> updateReplaced (run evs st)"
proof (induction evs arbitrary: st)
  case Nil
  then show ?case by (simp add: run_def)
next
  case (Cons e evs)
  have "updateReplaced (runEvent e st)"
    using Cons.prems by (cases e) (simp_all add: replaced_callOperation replaced_tick)
  then have "updateReplaced (run evs (runEvent e st))" by (rule Cons.IH)
  then show ?case by (simp add: run_def)
qed

lemma transaction_failed_replaced:
  "fst (transaction fn st) = Some e \<Longrightarrow> updateReplaced (snd (transaction fn st))"
  by (simp add: transaction_def Let_def case_prod_beta split: option.splits)

text \<open>
  C10. When the function given to \<open>transaction\<close> raises, the error leaves
  \<open>this.update\<close> set to the closure of the transaction, and no later operation
  or microtask restores it. From then on every call \<open>update(p, v)\<close> returns
  at once with the value written into the data map and nothing else changed:
  no validation, no middleware, no history entry, no queued notification.
\<close>

theorem update_stays_replaced_after_failed_transaction:
  assumes "fst (transaction updateFn st) = Some e"
    and "st' = run evs (snd (transaction updateFn st))"
  shows "callUpdate p v st' = (None, st'\<lparr>data := setProp (data st') p v\<rparr>)"
proof -
  have "updateReplaced (snd (transaction updateFn st))"
    using assms(1) by (rule transaction_failed_replaced)
  then have "updateReplaced st'"
    unfolding assms(2) by (rule replaced_run)
  then show ?thesis by (simp add: callUpdate_def)
qed

theorem update_stays_replaced_after_failed_transaction_witness:
  "fst (transaction [TxUpdate ''age'' (JNum 31), TxThrow (Error ''boom'')] agedState)
     = Some (Error ''boom'') \<and>
   fst (update ''age'' (JNum 200) agedState) \<noteq> None \<and>
   callUpdate ''age'' (JNum 200)
     (run [] (snd (transaction [TxUpdate ''age'' (JNum 31), TxThrow (Error ''boom'')] agedState)))
   = (None, agedState\<lparr>data := [(''age'', JNum 200)], updateReplaced := True\<rparr>)"
proof -
  let ?t = "transaction [TxUpdate ''age'' (JNum 31), TxThrow (Error ''boom'')] agedState"
  have t: "?t = (Some (Error ''boom''), agedState\<lparr>updateReplaced := True\<rparr>)"
    by (simp add: transaction_def cloneData_def agedState_def addValidation_def
        newReactiveState_def spread_def cloneDeep_def)
  have h1: "fst ?t = Some (Error ''boom'')" by (simp add: t)
  have h2: "run [] (snd ?t) = run [] (snd ?t)" by simp
  have u: "fst (update ''age'' (JNum 200) agedState) \<noteq> None"
    by (simp add: update_def validateProperty_def agedState_def addValidation_def
        newReactiveState_def ageRule_def)
  from update_stays_replaced_after_failed_transaction [OF h1 h2, of "''age''" "JNum 200"] h1 u
  show ?thesis
    by (simp add: t run_def) (simp add: agedState_def addValidation_def newReactiveState_def spread_def)
qed

section \<open>Reactive state: transactions\<close>

lemma getProp_setProp: "getProp (setProp d k v) k' = (if k' = k then v else getProp d k')"
  by (induction d) (auto simp: getProp_def)

lemma keys_setProp: "set (map fst (setProp d k v)) = insert k (set (map fst d))"
  by (induction d) auto

lemma distinct_setProp: "distinct (map fst d) \<Longrightarrow> distinct (map fst (setProp d k v))"
  by (induction d) (auto simp: keys_setProp [simplified])


lemma map_cloneDeep [simp]: "map (\<lambda>(k, v). (k, cloneDeep v)) d = d"
  by (induction d) (auto simp: cloneDeep_def)





lemma distinct_foldl_batch:
  "distinct (map fst b) \<Longrightarrow>
   distinct (map fst (foldl (\<lambda>b u. setProp b (c_property u) (c_value u)) b updates))"
  by (induction updates arbitrary: b) (simp_all add: distinct_setProp)

lemma getProp_foldl_batch:
  "getProp (foldl (\<lambda>b u. setProp b (c_property u) (c_value u)) b updates) k
     = (case filter (\<lambda>u. c_property u = k) updates of
          [] \<Rightarrow> getProp b k
        | us \<Rightarrow> c_value (last us))"
proof (induction updates arbitrary: b)
  case Nil
  show ?case by simp
next
  case (Cons u updates)
  show ?case
    by (simp add: Cons.IH getProp_setProp split: list.splits)
qed

lemma keys_foldl_batch:
  "set (map fst (foldl (\<lambda>b u. setProp b (c_property u) (c_value u)) b updates))
     = set (map fst b) \<union> c_property ` set updates"
  by (induction updates arbitrary: b) (auto simp: keys_setProp [simplified])



lemma data_snd_cloneData: "data (snd (cloneData st)) = data st"
  using sameCore_cloneData [of st] by (simp add: sameCore_def)


lemma transaction_success:
  assumes "fst (runTxn updateFn (data st) []) = None"
  shows "transaction updateFn st
           = (None, updateBatch (batchOf (snd (snd (runTxn updateFn (data st) []))))
                      ((snd (cloneData st))\<lparr>data := fst (snd (runTxn updateFn (data st) []))\<rparr>))"
  using assms
  by (simp add: transaction_def Let_def case_prod_beta data_snd_cloneData batchOf_def
      split: option.splits)



lemma changedProperties_nothing:
  "\<forall>(k, v) \<in> set us. getProp d k = v \<Longrightarrow> changedProperties us d = (d, [])"
  by (induction us) (auto simp: Let_def)

lemma writesVisible_runTxn:
  assumes "\<forall>c \<in> set cmds. \<exists>p v. c = TxUpdate p v" and "writesVisible d ups"
  shows "fst (runTxn cmds d ups) = None \<and>
         writesVisible (fst (snd (runTxn cmds d ups))) (snd (snd (runTxn cmds d ups)))"
  using assms
proof (induction cmds arbitrary: d ups)
  case Nil
  then show ?case by simp
next
  case (Cons c cmds)
  obtain p v where c: "c = TxUpdate p v" using Cons.prems(1) by auto
  have "writesVisible (setProp d p v)
          (ups @ [\<lparr>c_property = p, c_value = v, c_oldValue = getProp d p\<rparr>])"
    using Cons.prems(2) by (auto simp: writesVisible_def getProp_setProp)
  moreover have "\<forall>c \<in> set cmds. \<exists>p v. c = TxUpdate p v" using Cons.prems(1) by simp
  ultimately show ?case
    using Cons.IH by (simp add: c)
qed

lemma getProp_member: "distinct (map fst b) \<Longrightarrow> (k, v) \<in> set b \<Longrightarrow> getProp b k = v"
  by (simp add: getProp_def)

text \<open>
  A transaction whose function only calls \<open>update\<close> returns with every
  captured value already in the data map: the batched update finds nothing
  changed, and no listener round is queued.
\<close>

lemma transaction_of_updates_notifies_nobody:
  assumes "\<forall>c \<in> set updateFn. \<exists>p v. c = TxUpdate p v"
  shows "fst (transaction updateFn st) = None \<and>
         microtasks (snd (transaction updateFn st)) = microtasks st \<and>
         calls (snd (transaction updateFn st)) = calls st"
proof -
  let ?r = "runTxn updateFn (data st) []"
  let ?d = "fst (snd ?r)"
  let ?ups = "snd (snd ?r)"
  have v: "fst ?r = None" "writesVisible ?d ?ups"
    using writesVisible_runTxn [OF assms, of "data st" "[]"] by (simp_all add: writesVisible_def)
  have dist: "distinct (map fst (batchOf ?ups))"
    by (simp add: batchOf_def distinct_foldl_batch)
  have "\<forall>(k, w) \<in> set (batchOf ?ups). getProp ?d k = w"
  proof (clarify)
    fix k w
    assume m: "(k, w) \<in> set (batchOf ?ups)"
    then have "k \<in> set (map fst (batchOf ?ups))" by force
    then have "k \<in> c_property ` set ?ups"
      using keys_foldl_batch [of "[]" ?ups] by (simp add: batchOf_def)
    then have ne: "filter (\<lambda>u. c_property u = k) ?ups \<noteq> []"
      by (auto simp: filter_empty_conv)
    have "getProp (batchOf ?ups) k = c_value (last (filter (\<lambda>u. c_property u = k) ?ups))"
      using ne by (simp add: batchOf_def getProp_foldl_batch split: list.splits)
    moreover have "getProp (batchOf ?ups) k = w"
      using dist m by (rule getProp_member)
    ultimately show "getProp ?d k = w"
      using v(2) ne by (simp add: writesVisible_def)
  qed
  then have n: "changedProperties (batchOf ?ups) ?d = (?d, [])"
    by (rule changedProperties_nothing)
  have t: "transaction updateFn st
      = (None, updateBatch (batchOf ?ups) ((snd (cloneData st))\<lparr>data := ?d\<rparr>))"
    using v(1) by (rule transaction_success)
  show ?thesis
    using sameCore_cloneData [of st]
    by (simp add: t updateBatch_def n sameCore_def)
qed

section \<open>Reactive state: batching of notifications\<close>

declare runMicrotasks.simps [simp del]










section \<open>Reactive state: computed properties\<close>

text \<open>
  \<open>updateBatch\<close> and \<open>undo\<close> write the data map and leave the cache of computed
  values as it is, whatever the dependencies are.
\<close>

lemma computedCache_updateBatch: "computedCache (updateBatch us st) = computedCache st"
  by (simp add: updateBatch_def notifyListeners_def Let_def case_prod_beta)

lemma computedCache_undo: "computedCache (snd (undo st)) = computedCache st"
  by (simp add: undo_def notifyListeners_def Let_def)

text \<open>
  C2 fails on the code. With the sum read through a proxy, the keys \<open>a\<close> and
  \<open>b\<close> are recorded as dependencies, yet after \<open>updateBatch\<close> has changed
  \<open>a\<close> the computed property still reads 15. With the sum read on
  \<open>state.data\<close>, as the repository's test does, no dependency is recorded, and
  after \<open>update\<close> has changed \<open>a\<close> and the flush has run the computed
  property still reads 15.
\<close>

theorem computed_stale_after_change:
  "fst (readComputed ''sum'' (computed ''sum'' sumViaProxy ab)) = JNum 15 \<and>
   map_of (dependencies (snd (readComputed ''sum'' (computed ''sum'' sumViaProxy ab)))) ''sum''
     = Some [''a'', ''b''] \<and>
   getProp (data (runMicrotasks (updateBatch [(''a'', JNum 20)]
              (snd (readComputed ''sum'' (computed ''sum'' sumViaProxy ab)))))) ''a'' = JNum 20 \<and>
   fst (readComputed ''sum'' (runMicrotasks (updateBatch [(''a'', JNum 20)]
              (snd (readComputed ''sum'' (computed ''sum'' sumViaProxy ab)))))) = JNum 15 \<and>
   fst (readComputed ''sum'' (computed ''sum'' sumViaData ab)) = JNum 15 \<and>
   dependencies (snd (readComputed ''sum'' (computed ''sum'' sumViaData ab))) = [] \<and>
   getProp (data (runMicrotasks (snd (update ''a'' (JNum 20)
              (snd (readComputed ''sum'' (computed ''sum'' sumViaData ab))))))) ''a'' = JNum 20 \<and>
   fst (readComputed ''sum'' (runMicrotasks (snd (update ''a'' (JNum 20)
              (snd (readComputed ''sum'' (computed ''sum'' sumViaData ab))))))) = JNum 15"
proof -
  have p1: "readComputed ''sum'' (computed ''sum'' sumViaProxy ab)
      = (JNum 15, (computed ''sum'' sumViaProxy ab)
            \<lparr>dependencies := [(''sum'', [''a'', ''b''])], computedCache := [(''sum'', JNum 15)]\<rparr>)"
    by (simp add: readComputed_def computed_def runGetter_def sumViaProxy_def ab_def
        newReactiveState_def spread_def trackRead_def getProp_def addValues_def Let_def)
  have p2: "runMicrotasks (updateBatch [(''a'', JNum 20)]
        ((computed ''sum'' sumViaProxy ab)
            \<lparr>dependencies := [(''sum'', [''a'', ''b''])], computedCache := [(''sum'', JNum 15)]\<rparr>))
      = (computed ''sum'' sumViaProxy ab)
            \<lparr>dependencies := [(''sum'', [''a'', ''b''])], computedCache := [(''sum'', JNum 15)],
              data := [(''a'', JNum 20), (''b'', JNum 10)]\<rparr>"
    by (simp add: runMicrotasks.simps updateBatch_def notifyListeners_def computed_def ab_def
        newReactiveState_def spread_def getProp_def Let_def runTask_def callListeners_def)
  have d1: "readComputed ''sum'' (computed ''sum'' sumViaData ab)
      = (JNum 15, (computed ''sum'' sumViaData ab)\<lparr>computedCache := [(''sum'', JNum 15)]\<rparr>)"
    by (simp add: readComputed_def computed_def runGetter_def sumViaData_def ab_def
        newReactiveState_def spread_def getProp_def addValues_def Let_def)
  have d2: "runMicrotasks (snd (update ''a'' (JNum 20)
        ((computed ''sum'' sumViaData ab)\<lparr>computedCache := [(''sum'', JNum 15)]\<rparr>)))
      = (computed ''sum'' sumViaData ab)
            \<lparr>computedCache := [(''sum'', JNum 15)],
              data := [(''a'', JNum 20), (''b'', JNum 10)],
              history := [\<lparr>h_property = ''a'', h_oldValue = JNum 5, h_newValue = JNum 20,
                            h_timestamp = 0\<rparr>]\<rparr>"
    by (simp add: runMicrotasks.simps update_def validateProperty_def computed_def ab_def
        newReactiveState_def spread_def getProp_def Let_def runTask_def resumeUpdate_def
        scheduleUpdate_def flushUpdates_def callListeners_def invalidateComputedProperties_def
        cloneDeep_def)
  show ?thesis
    unfolding p1 d1 snd_conv fst_conv p2 d2
    by (simp add: readComputed_def computed_def runGetter_def getProp_def ab_def
        newReactiveState_def)
qed

section \<open>Lexer: termination\<close>

text \<open>Whenever \<open>tokenize\<close> returns, the stream is not empty and ends with the end marker.\<close>

lemma tokenize_ends_with_EOF:
  "tokenize src = Some toks \<Longrightarrow> toks \<noteq> [] \<and> ttype (last toks) = EOF"
  by (auto simp: tokenize_def pushToken_def split: option.splits)

lemma scanToken_unknown_char:
  "scanToken \<lparr>content = ''@'', position = 0, tokens = ts\<rparr>
     = Some \<lparr>content = ''@'', position = 0,
              tokens = ts @ [\<lparr>ttype = TEXT, tvalue = Str ''@'', line = 1\<rparr>]\<rparr>"
  by (simp add: scanToken_def getCurrentChar_def isAtEnd_def isWhitespace_def peek_def
     matchKeyword_def substring_def isAlpha_def isDigit_def scanOperator_def operators_def
     addToken_def pushToken_def getCurrentLine_def Let_def)

lemma tokenizeLoop_unknown_char:
  assumes "tokenizeLoop L = Some L'"
  shows "\<not> (content L = ''@'' \<and> position L = 0)"
proof -
  have step: "\<not> (content M = ''@'' \<and> position M = 0)"
    if IH: "\<And>x y. f x = Some y \<Longrightarrow> \<not> (content x = ''@'' \<and> position x = 0)"
      and eq: "(if position M < length (content M)
                then case scanToken M of None \<Rightarrow> None | Some M' \<Rightarrow> f M'
                else Some M) = Some M'"
    for f :: "lexer \<Rightarrow> lexer option" and M M'
  proof
    assume a: "content M = ''@'' \<and> position M = 0"
    then have M: "M = \<lparr>content = ''@'', position = 0, tokens = tokens M\<rparr>"
      by (cases M) simp
    have "scanToken M = Some \<lparr>content = ''@'', position = 0,
              tokens = tokens M @ [\<lparr>ttype = TEXT, tvalue = Str ''@'', line = 1\<rparr>]\<rparr>"
      by (subst M) (rule scanToken_unknown_char)
    with a eq have "f \<lparr>content = ''@'', position = 0,
              tokens = tokens M @ [\<lparr>ttype = TEXT, tvalue = Str ''@'', line = 1\<rparr>]\<rparr> = Some M'"
      by simp
    from IH [OF this] show False by simp
  qed
  show ?thesis
    by (rule tokenizeLoop.raw_induct
          [where P = "\<lambda>x y. \<not> (content x = ''@'' \<and> position x = 0)", OF step assms])
qed

lemma skipComponentWord_at_end:
  assumes "skipComponentWord L = Some L'"
  shows "\<not> isAtEnd L"
proof -
  have step: "\<not> isAtEnd M"
    if IH: "\<And>x y. f x = Some y \<Longrightarrow> \<not> isAtEnd x"
      and eq: "(if getCurrentChar M \<noteq> CHR '' '' \<and> getCurrentChar M \<noteq> CHR ''>''
                then f (advance M) else Some M) = Some M'"
    for f :: "lexer \<Rightarrow> lexer option" and M M'
  proof
    assume e: "isAtEnd M"
    then have "advance M = M" by (simp add: advance_def)
    with e eq have "f M = Some M'" by simp
    from IH [OF this] e show False by simp
  qed
  show ?thesis
    by (rule skipComponentWord.raw_induct [where P = "\<lambda>x y. \<not> isAtEnd x", OF step assms])
qed

lemma skipComponentWord_step:
  "\<not> isAtEnd L \<Longrightarrow> getCurrentChar L \<noteq> CHR '' '' \<Longrightarrow> getCurrentChar L \<noteq> CHR ''>'' \<Longrightarrow>
   skipComponentWord L = skipComponentWord (advance L)"
  by (subst skipComponentWord.simps) simp

lemma skipComponentWord_diverges:
  "skipComponentWord \<lparr>content = ''<component'', position = 1, tokens = []\<rparr> = None"
proof -
  let ?L = "\<lambda>n. \<lparr>content = ''<component'', position = n, tokens = []\<rparr>"
  have step: "\<And>n. n < 10 \<Longrightarrow> 0 < n \<Longrightarrow> skipComponentWord (?L n) = skipComponentWord (?L (Suc n))"
  proof -
    fix n :: nat
    assume n: "n < 10" "0 < n"
    have c: "''<component'' ! n \<noteq> CHR '' '' \<and> ''<component'' ! n \<noteq> CHR ''>''"
      using n by (auto simp: less_Suc_eq numeral_nat nth_Cons')
    have "skipComponentWord (?L n) = skipComponentWord (advance (?L n))"
      using n c by (intro skipComponentWord_step) (simp_all add: isAtEnd_def getCurrentChar_def)
    also have "advance (?L n) = ?L (Suc n)"
      using n by (simp add: advance_def isAtEnd_def)
    finally show "skipComponentWord (?L n) = skipComponentWord (?L (Suc n))" .
  qed
  have "skipComponentWord (?L 1) = skipComponentWord (?L 10)"
    using step [of 1] step [of 2] step [of 3] step [of 4] step [of 5] step [of 6] step [of 7]
      step [of 8] step [of 9]
    by (simp add: numeral_nat)
  moreover have "skipComponentWord (?L 10) = None"
  proof (cases "skipComponentWord (?L 10)")
    case None
    then show ?thesis .
  next
    case (Some L')
    then have "\<not> isAtEnd (?L 10)" by (rule skipComponentWord_at_end)
    then show ?thesis by (simp add: isAtEnd_def)
  qed
  ultimately show ?thesis by simp
qed

text \<open>
  C1 fails on the code. On the one-character input \<open>@\<close> the lexer adds a
  \<open>TEXT\<close> token without advancing, so the loop of \<open>tokenize\<close> never ends; on
  the input \<open><component\<close> the first loop of \<open>scanComponentDeclaration\<close> never
  ends. In both cases \<open>tokenize\<close> does not return.
\<close>

theorem tokenize_does_not_return:
  "tokenize ''@'' = None \<and> tokenize ''<component'' = None"
proof
  show "tokenize ''@'' = None"
  proof (cases "tokenizeLoop \<lparr>content = ''@'', position = 0, tokens = []\<rparr>")
    case None
    then show ?thesis by (simp add: tokenize_def)
  next
    case (Some L')
    then show ?thesis using tokenizeLoop_unknown_char [OF Some] by simp
  qed
next
  have "scanToken \<lparr>content = ''<component'', position = 0, tokens = []\<rparr> = None"
    using skipComponentWord_diverges
    by (simp add: scanToken_def getCurrentChar_def isAtEnd_def isWhitespace_def peek_def
        substring_def startsWith_def scanComponentDeclaration_def advance_def Let_def)
  then have "tokenizeLoop \<lparr>content = ''<component'', position = 0, tokens = []\<rparr> = None"
    by (subst tokenizeLoop.simps) simp
  then show "tokenize ''<component'' = None"
    by (simp add: tokenize_def)
qed

section \<open>Lexer: interpolation spans\<close>

lemma tokens_advance [simp]: "tokens (advance L) = tokens L"
  by (simp add: advance_def)

lemma tokens_skipLineComment [simp]: "tokens (skipLineComment L) = tokens L"
  by (induction L rule: skipLineComment.induct) (subst skipLineComment.simps, simp)

lemma tokens_blockCommentLoop [simp]: "tokens (blockCommentLoop L) = tokens L"
  by (induction L rule: blockCommentLoop.induct) (subst blockCommentLoop.simps, simp)

lemma tokens_skipSpaces [simp]: "tokens (skipSpaces L) = tokens L"
  by (induction L rule: skipSpaces.induct) (subst skipSpaces.simps, simp)

lemma tokens_scanComponentName [simp]: "tokens (scanComponentName L) = tokens L"
  by (induction L rule: scanComponentName.induct) (subst scanComponentName.simps, simp)

lemma tokens_skipToTagEnd [simp]: "tokens (skipToTagEnd L) = tokens L"
  by (induction L rule: skipToTagEnd.induct) (subst skipToTagEnd.simps, simp)

lemma tokens_closingTagLoop [simp]: "tokens (closingTagLoop L) = tokens L"
  by (induction L rule: closingTagLoop.induct) (subst closingTagLoop.simps, simp)

lemma tokens_openingTagLoop [simp]: "tokens (openingTagLoop a q L) = tokens L"
  by (induction a q L rule: openingTagLoop.induct)
     (subst openingTagLoop.simps, auto simp: Let_def)

lemma tokens_stringLoop [simp]: "tokens (stringLoop q L) = tokens L"
  by (induction q L rule: stringLoop.induct) (subst stringLoop.simps, simp)

lemma tokens_identifierLoop [simp]: "tokens (identifierLoop L) = tokens L"
  by (induction L rule: identifierLoop.induct) (subst identifierLoop.simps, simp)

lemma tokens_digitLoop [simp]: "tokens (digitLoop L) = tokens L"
  by (induction L rule: digitLoop.induct) (subst digitLoop.simps, simp)

lemma tokens_skipComponentWord:
  assumes "skipComponentWord L = Some L'"
  shows "tokens L' = tokens L"
proof -
  have step: "tokens M' = tokens M"
    if IH: "\<And>x y. f x = Some y \<Longrightarrow> tokens y = tokens x"
      and eq: "(if getCurrentChar M \<noteq> CHR '' '' \<and> getCurrentChar M \<noteq> CHR ''>''
                then f (advance M) else Some M) = Some M'"
    for f :: "lexer \<Rightarrow> lexer option" and M M'
    using IH [of "advance M" M'] eq by (auto split: if_splits)
  show ?thesis
    by (rule skipComponentWord.raw_induct [where P = "\<lambda>x y. tokens y = tokens x", OF step assms])
qed

lemma types_addToken [simp]:
  "ttype ` set (tokens (addToken ty v L)) = insert ty (ttype ` set (tokens L))"
  by (auto simp: addToken_def pushToken_def split: option.splits)

lemma noInterpolation_scanOperator:
  "noInterpolation L \<Longrightarrow> noInterpolation (scanOperator L)"
  by (simp add: noInterpolation_def scanOperator_def Let_def operators_def split: option.splits)

lemma types_scanComponentDeclaration:
  assumes "scanComponentDeclaration L = Some L'"
  shows "ttype ` set (tokens L') = insert COMPONENT (ttype ` set (tokens L))"
proof -
  obtain L1 where w: "skipComponentWord (advance L) = Some L1"
    using assms by (auto simp: scanComponentDeclaration_def split: option.splits)
  have t: "tokens L1 = tokens L"
    using tokens_skipComponentWord [OF w] by simp
  let ?L2 = "skipSpaces L1"
  let ?L3 = "scanComponentName ?L2"
  let ?L4 = "skipToTagEnd ?L3"
  have "Some L' = Some (addToken COMPONENT
            (Some (Str (substring (content ?L3) (position ?L2) (position ?L3))))
            (if getCurrentChar ?L4 = CHR ''>'' then advance ?L4 else ?L4))"
    using assms w by (simp add: scanComponentDeclaration_def Let_def)
  then have e: "L' = addToken COMPONENT
            (Some (Str (substring (content ?L3) (position ?L2) (position ?L3))))
            (if getCurrentChar ?L4 = CHR ''>'' then advance ?L4 else ?L4)"
    by (simp only: option.inject)
  show ?thesis
    by (subst e) (simp add: t)
qed

lemma noInterpolation_scanComponentDeclaration:
  "scanComponentDeclaration L = Some L' \<Longrightarrow> noInterpolation L \<Longrightarrow> noInterpolation L'"
  by (simp add: noInterpolation_def types_scanComponentDeclaration)

lemma noInterpolation_addToken [simp]:
  "noInterpolation (addToken ty v L) \<longleftrightarrow> ty \<noteq> INTERPOLATION \<and> noInterpolation L"
  by (auto simp: noInterpolation_def)

lemma noInterpolation_loops [simp]:
  "noInterpolation (advance L) = noInterpolation L"
  "noInterpolation (skipLineComment L) = noInterpolation L"
  "noInterpolation (blockCommentLoop L) = noInterpolation L"
  "noInterpolation (closingTagLoop L) = noInterpolation L"
  "noInterpolation (openingTagLoop a q L) = noInterpolation L"
  "noInterpolation (stringLoop c L) = noInterpolation L"
  "noInterpolation (identifierLoop L) = noInterpolation L"
  "noInterpolation (digitLoop L) = noInterpolation L"
  by (simp_all add: noInterpolation_def)

lemma noInterpolation_scanners:
  assumes "noInterpolation L"
  shows "noInterpolation (skipBlockComment L)"
    and "noInterpolation (scanHtmlTag L)"
    and "noInterpolation (scanString L)"
    and "noInterpolation (scanIdentifier L)"
    and "noInterpolation (scanNumber L)"
    and "noInterpolation (scanOperator L)"
  using assms
  by (simp_all add: skipBlockComment_def scanHtmlTag_def scanString_def
      scanIdentifier_def scanNumber_def scanOperator_def operators_def Let_def
      split: option.splits)

lemma noInterpolation_scanToken:
  assumes "scanToken L = Some L'" and "noInterpolation L"
  shows "noInterpolation L'"
proof -
  note s = noInterpolation_scanners [OF assms(2)]
  have c: "scanComponentDeclaration L = Some L' \<Longrightarrow> noInterpolation L'"
    using assms(2) by (rule noInterpolation_scanComponentDeclaration [rotated])
  show ?thesis
    using assms s c unfolding scanToken_def Let_def
    by (auto split: if_splits)
qed

text \<open>The input of the repository's test of interpolation tokens.\<close>

lemma tokenize_template_example:
  "tokenize ''template { <div>{count}</div> }'' = Some
     [\<lparr>ttype = TEMPLATE_BLOCK, tvalue = Str ''t'', line = 1\<rparr>,
      \<lparr>ttype = IDENTIFIER, tvalue = Str ''emplate'', line = 1\<rparr>,
      \<lparr>ttype = LEFT_BRACE, tvalue = Str ''{'', line = 1\<rparr>,
      \<lparr>ttype = HTML_TAG, tvalue = Str ''<div>'', line = 1\<rparr>,
      \<lparr>ttype = LEFT_BRACE, tvalue = Str ''{'', line = 1\<rparr>,
      \<lparr>ttype = IDENTIFIER, tvalue = Str ''count'', line = 1\<rparr>,
      \<lparr>ttype = RIGHT_BRACE, tvalue = Str ''}'', line = 1\<rparr>,
      \<lparr>ttype = HTML_TAG, tvalue = Str ''</div>'', line = 1\<rparr>,
      \<lparr>ttype = RIGHT_BRACE, tvalue = Str ''}'', line = 1\<rparr>,
      \<lparr>ttype = EOF, tvalue = Str [], line = 1\<rparr>]"
  by code_simp

text \<open>
  C8 fails on the code. Whatever the input, a token stream that \<open>tokenize\<close>
  returns holds no interpolation token: an opening brace is always taken by
  the branch for braces, which comes first.
\<close>

theorem tokenize_never_emits_interpolation:
  assumes "tokenize src = Some toks"
  shows "INTERPOLATION \<notin> set (map ttype toks)"
proof -
  have step: "noInterpolation M \<longrightarrow> noInterpolation M'"
    if IH: "\<And>x y. f x = Some y \<Longrightarrow> noInterpolation x \<longrightarrow> noInterpolation y"
      and eq: "(if position M < length (content M)
                then case scanToken M of None \<Rightarrow> None | Some M' \<Rightarrow> f M'
                else Some M) = Some M'"
    for f :: "lexer \<Rightarrow> lexer option" and M M'
  proof (cases "position M < length (content M)")
    case False
    with eq show ?thesis by simp
  next
    case True
    with eq obtain M1 where s: "scanToken M = Some M1" and r: "f M1 = Some M'"
      by (auto split: option.splits)
    show ?thesis
      using noInterpolation_scanToken [OF s] IH [OF r] by blast
  qed
  obtain L where L: "tokenizeLoop \<lparr>content = src, position = 0, tokens = []\<rparr> = Some L"
    and t: "toks = tokens (pushToken EOF (Str []) L)"
    using assms by (auto simp: tokenize_def split: option.splits)
  have "noInterpolation \<lparr>content = src, position = 0, tokens = []\<rparr> \<longrightarrow> noInterpolation L"
    by (rule tokenizeLoop.raw_induct
          [where P = "\<lambda>x y. noInterpolation x \<longrightarrow> noInterpolation y", OF step L])
  then have "noInterpolation L"
    by (simp add: noInterpolation_def)
  then show ?thesis
    by (simp add: t pushToken_def noInterpolation_def)
qed

theorem tokenize_never_emits_interpolation_witness:
  "tokenize ''template { <div>{count}</div> }'' = Some
     [\<lparr>ttype = TEMPLATE_BLOCK, tvalue = Str ''t'', line = 1\<rparr>,
      \<lparr>ttype = IDENTIFIER, tvalue = Str ''emplate'', line = 1\<rparr>,
      \<lparr>ttype = LEFT_BRACE, tvalue = Str ''{'', line = 1\<rparr>,
      \<lparr>ttype = HTML_TAG, tvalue = Str ''<div>'', line = 1\<rparr>,
      \<lparr>ttype = LEFT_BRACE, tvalue = Str ''{'', line = 1\<rparr>,
      \<lparr>ttype = IDENTIFIER, tvalue = Str ''count'', line = 1\<rparr>,
      \<lparr>ttype = RIGHT_BRACE, tvalue = Str ''}'', line = 1\<rparr>,
      \<lparr>ttype = HTML_TAG, tvalue = Str ''</div>'', line = 1\<rparr>,
      \<lparr>ttype = RIGHT_BRACE, tvalue = Str ''}'', line = 1\<rparr>,
      \<lparr>ttype = EOF, tvalue = Str [], line = 1\<rparr>] \<and>
   INTERPOLATION \<notin> set (map ttype
     [\<lparr>ttype = TEMPLATE_BLOCK, tvalue = Str ''t'', line = 1\<rparr>,
      \<lparr>ttype = IDENTIFIER, tvalue = Str ''emplate'', line = 1\<rparr>,
      \<lparr>ttype = LEFT_BRACE, tvalue = Str ''{'', line = 1\<rparr>,
      \<lparr>ttype = HTML_TAG, tvalue = Str ''<div>'', line = 1\<rparr>,
      \<lparr>ttype = LEFT_BRACE, tvalue = Str ''{'', line = 1\<rparr>,
      \<lparr>ttype = IDENTIFIER, tvalue = Str ''count'', line = 1\<rparr>,
      \<lparr>ttype = RIGHT_BRACE, tvalue = Str ''}'', line = 1\<rparr>,
      \<lparr>ttype = HTML_TAG, tvalue = Str ''</div>'', line = 1\<rparr>,
      \<lparr>ttype = RIGHT_BRACE, tvalue = Str ''}'', line = 1\<rparr>,
      \<lparr>ttype = EOF, tvalue = Str [], line = 1\<rparr>])"
  using tokenize_template_example
    tokenize_never_emits_interpolation [OF tokenize_template_example]
  by (rule conjI)

section \<open>Parser: state blocks\<close>

lemma tokenize_counter:
  "tokenize ''<component Counter.ezu> state { count: 0 }'' = Some
     [\<lparr>ttype = COMPONENT, tvalue = Str ''Counter.ezu'', line = 1\<rparr>,
      \<lparr>ttype = STATE_BLOCK, tvalue = Str ''s'', line = 1\<rparr>,
      \<lparr>ttype = IDENTIFIER, tvalue = Str ''tate'', line = 1\<rparr>,
      \<lparr>ttype = LEFT_BRACE, tvalue = Str ''{'', line = 1\<rparr>,
      \<lparr>ttype = IDENTIFIER, tvalue = Str ''count'', line = 1\<rparr>,
      \<lparr>ttype = COLON, tvalue = Str '':'', line = 1\<rparr>,
      \<lparr>ttype = NUMBER, tvalue = Num ''0'', line = 1\<rparr>,
      \<lparr>ttype = RIGHT_BRACE, tvalue = Str ''}'', line = 1\<rparr>,
      \<lparr>ttype = EOF, tvalue = Str [], line = 1\<rparr>]"
  by code_simp

text \<open>
  C3 fails on the code. A source with a state block does not parse: the lexer
  emits the keyword token with one character and the rest of the keyword as an
  identifier, and \<open>parseStateBlock\<close> raises where it expects the opening brace.
\<close>

theorem parse_rejects_state_block:
  "parse styleRules templateBody ''<component Counter.ezu> state { count: 0 }''
     = Some (Inl (Error ''Parse error: Expected \"{\" after state. Got IDENTIFIER instead. at line 1''))"
  by (simp add: parse_def tokenize_counter parseLoop.simps parserAtEnd_def peekToken_def
      parseComponentName_def parserAdvance_def parseStateBlock_def consume_def check_def
      valueText_def startsWith_def showNat_def Let_def)

end
